theory Spec2Isabelle
  imports Main "HOL-Library.AList"
begin

section \<open>Go values used by the package\<close>

text \<open>
  A Go string is a sequence of bytes: \<open>string\<close>. A Go \<open>int\<close> and an \<open>int64\<close> are
  modelled as \<open>int\<close>; where Go's arithmetic can leave the 64-bit range the wrap-around
  is written out with \<open>wrap64\<close>.
\<close>

definition wrap64 :: "int \<Rightarrow> int" where
  "wrap64 x = (x + 2 ^ 63) mod 2 ^ 64 - 2 ^ 63"

datatype error = Error string | Errorf string error

subsection \<open>strconv and fmt\<close>

definition is_digit :: "char \<Rightarrow> bool" where
  "is_digit c = (48 \<le> (of_char c :: int) \<and> (of_char c :: int) \<le> 57)"

definition digit_val :: "char \<Rightarrow> int" where
  "digit_val c = of_char c - 48"

definition digit_of :: "int \<Rightarrow> char" where
  "digit_of d = char_of (48 + d)"

text \<open>The decimal digits of a number that is not negative, the most significant first.\<close>

function digits_of :: "int \<Rightarrow> string" where
  "digits_of n =
     (if n < 10 then [digit_of n] else digits_of (n div 10) @ [digit_of (n mod 10)])"
  by pat_completeness auto
termination
  by (relation "measure nat") auto

declare digits_of.simps [simp del]

text \<open>\<open>fmt.Sprintf("%d", n)\<close> for an integer \<open>n\<close>.\<close>

definition Sprintf_d :: "int \<Rightarrow> string" where
  "Sprintf_d n = (if n < 0 then CHR ''-'' # digits_of (- n) else digits_of n)"

fun parse_digits :: "int \<Rightarrow> string \<Rightarrow> int option" where
  "parse_digits acc [] = Some acc"
| "parse_digits acc (c # cs) =
     (if is_digit c then parse_digits (acc * 10 + digit_val c) cs else None)"

text \<open>
  \<open>strconv.ParseInt(s, 10, 64)\<close>: an optional sign, then at least one decimal digit and
  nothing else; a value outside the 64-bit range is an error. \<open>strconv.Atoi\<close> on a 64-bit
  platform accepts the same strings with the same values.
\<close>

definition ParseInt :: "string \<Rightarrow> error + int" where
  "ParseInt s =
     (case s of
        [] \<Rightarrow> Inl (Error ''invalid syntax'')
      | c # cs \<Rightarrow>
          (let neg = (c = CHR ''-'');
               rest = (if c = CHR ''+'' \<or> c = CHR ''-'' then cs else s)
           in if rest = [] then Inl (Error ''invalid syntax'')
              else (case parse_digits 0 rest of
                      None \<Rightarrow> Inl (Error ''invalid syntax'')
                    | Some un \<Rightarrow>
                        if \<not> neg \<and> 2 ^ 63 \<le> un then Inl (Error ''value out of range'')
                        else if neg \<and> 2 ^ 63 < un then Inl (Error ''value out of range'')
                        else Inr (if neg then - un else un))))"

definition Atoi :: "string \<Rightarrow> error + int" where
  "Atoi s = ParseInt s"

subsection \<open>time.Time\<close>

text \<open>
  A \<open>time.Time\<close> is compared through its seconds since January 1 of year 1 and its
  nanoseconds. \<open>time.Time{}\<close> is second 0 of that count; \<open>time.Unix(s, 0)\<close> adds the
  offset of 1970 to \<open>s\<close> in 64-bit arithmetic.
\<close>

record Time =
  t_sec :: int
  t_nsec :: int

definition unixToInternal :: int where
  "unixToInternal = 62135596800"

definition time_zero :: Time where
  "time_zero = \<lparr>t_sec = 0, t_nsec = 0\<rparr>"

definition time_Unix :: "int \<Rightarrow> Time" where
  "time_Unix s = \<lparr>t_sec = wrap64 (s + unixToInternal), t_nsec = 0\<rparr>"

definition After :: "Time \<Rightarrow> Time \<Rightarrow> bool" where
  "After t u = (t_sec t > t_sec u \<or> (t_sec t = t_sec u \<and> t_nsec t > t_nsec u))"

subsection \<open>http.Header\<close>

text \<open>
  \<open>http.Header\<close> maps a canonical header name to its list of values; it is kept as an
  association list with one pair for each name. \<open>Get\<close> and \<open>Set\<close>
  canonicalise the name they are given (\<open>textproto.CanonicalMIMEHeaderKey\<close>): a name
  with a byte that is not a token character is left as it is; otherwise the first letter
  and every letter after a hyphen are upper-cased and the others lower-cased.
\<close>

type_synonym header = "(string \<times> string list) list"

definition is_upper :: "char \<Rightarrow> bool" where
  "is_upper c = (65 \<le> (of_char c :: nat) \<and> (of_char c :: nat) \<le> 90)"

definition is_lower :: "char \<Rightarrow> bool" where
  "is_lower c = (97 \<le> (of_char c :: nat) \<and> (of_char c :: nat) \<le> 122)"

definition to_lower :: "char \<Rightarrow> char" where
  "to_lower c = (if is_upper c then char_of ((of_char c :: nat) + 32) else c)"

definition to_upper :: "char \<Rightarrow> char" where
  "to_upper c = (if is_lower c then char_of ((of_char c :: nat) - 32) else c)"

definition validHeaderFieldByte :: "char \<Rightarrow> bool" where
  "validHeaderFieldByte c =
     (is_upper c \<or> is_lower c \<or> is_digit c \<or> c \<in> set (''!#$%&*+-.^_`|~'' @ [CHR 0x27]))"

fun canonical_from :: "bool \<Rightarrow> string \<Rightarrow> string" where
  "canonical_from upper [] = []"
| "canonical_from upper (c # cs) =
     (if upper then to_upper c else to_lower c) # canonical_from (c = CHR ''-'') cs"

definition CanonicalMIMEHeaderKey :: "string \<Rightarrow> string" where
  "CanonicalMIMEHeaderKey s =
     (if list_all validHeaderFieldByte s then canonical_from True s else s)"

definition Header_Get :: "header \<Rightarrow> string \<Rightarrow> string" where
  "Header_Get h k =
     (case map_of h (CanonicalMIMEHeaderKey k) of
        None \<Rightarrow> []
      | Some [] \<Rightarrow> []
      | Some (v # vs) \<Rightarrow> v)"

definition Header_Set :: "header \<Rightarrow> string \<Rightarrow> string \<Rightarrow> header" where
  "Header_Set h k v = AList.update (CanonicalMIMEHeaderKey k) [v] h"

definition etagKey :: string where
  "etagKey = ''Etag''"

definition ifNoneMatchKey :: string where
  "ifNoneMatchKey = ''If-None-Match''"

definition minimumContentLength :: int where
  "minimumContentLength = 10"

subsection \<open>Requests, responses and the Store\<close>

text \<open>
  Of \<open>http.Response\<close> the package reads and writes the status code, the headers and the
  declared content length (\<open>-1\<close> when unknown); the body is carried along. A nil header
  map reads like an empty one: both are the empty list.
\<close>

record Response =
  StatusCode :: int
  Header :: header
  ContentLength :: int
  Body :: string

record URL =
  Host :: string
  Path :: string
  RawQuery :: string

record Request =
  url :: URL
  ReqHeader :: header

text \<open>
  The \<open>Store\<close> struct without its two stateful fields: the transport \<open>client\<close> and the
  \<open>seenHosts\<close> set live in the state the operations pass along.
\<close>

record Store =
  fileSystemRoot :: string
  maxErrorVersion :: int
  fetchTimestampKey :: string
  fetchVersionKey :: string

section \<open>The freshness policy\<close>

definition getWriteTimestamp :: "Store \<Rightarrow> Response \<Rightarrow> error + Time" where
  "getWriteTimestamp s rsp =
     (let timestamp = Header_Get (Header rsp) (fetchTimestampKey s)
      in if timestamp \<noteq> []
         then (case ParseInt timestamp of
                 Inl err \<Rightarrow> Inl err
               | Inr seconds \<Rightarrow> Inr (time_Unix seconds))
         else Inl (Error ''failed to find timestamp''))"

definition getVersion :: "Store \<Rightarrow> Response \<Rightarrow> error + int" where
  "getVersion s rsp =
     (let version = Header_Get (Header rsp) (fetchVersionKey s)
      in if version \<noteq> [] then Atoi version else Inr 1)"

text \<open>The statuses of the \<open>switch\<close>: 403, 401, 500, 502, 503, 504.\<close>

definition retryStatus :: "int \<Rightarrow> bool" where
  "retryStatus c = (c = 403 \<or> c = 401 \<or> c = 500 \<or> c = 502 \<or> c = 503 \<or> c = 504)"

definition shouldUseCachedValue :: "Store \<Rightarrow> Response \<Rightarrow> Time \<Rightarrow> int \<times> bool" where
  "shouldUseCachedValue s rsp lastModified =
     (if ContentLength rsp \<noteq> - 1 \<and> ContentLength rsp < minimumContentLength then (0, False)
      else (case getWriteTimestamp s rsp of
              Inl err \<Rightarrow> (0, False)
            | Inr t \<Rightarrow>
                (case getVersion s rsp of
                   Inl err \<Rightarrow> (0, False)
                 | Inr version \<Rightarrow>
                     if retryStatus (StatusCode rsp) \<and> version \<le> maxErrorVersion s
                     then (version, False)
                     else if After t lastModified then (version, True)
                     else (0, False))))"

section \<open>The storage key\<close>

subsection \<open>strings and path/filepath\<close>

text \<open>
  \<open>strings.TrimLeft(s, cutset)\<close> drops every leading byte of \<open>s\<close> that occurs in
  \<open>cutset\<close>. \<open>strings.ReplaceAll(s, old, new)\<close> replaces the non-overlapping
  occurrences of \<open>old\<close> from left to right (\<open>skip\<close> counts the bytes of an occurrence
  still to pass over); with an empty \<open>old\<close> it inserts \<open>new\<close> around every byte.
\<close>

definition strings_TrimLeft :: "string \<Rightarrow> string \<Rightarrow> string" where
  "strings_TrimLeft s cutset = dropWhile (\<lambda>c. c \<in> set cutset) s"

fun replace_from :: "string \<Rightarrow> string \<Rightarrow> nat \<Rightarrow> string \<Rightarrow> string" where
  "replace_from old new skip [] = []"
| "replace_from old new (Suc k) (c # cs) = replace_from old new k cs"
| "replace_from old new 0 (c # cs) =
     (if take (length old) (c # cs) = old
      then new @ replace_from old new (length old - 1) cs
      else c # replace_from old new 0 cs)"

definition strings_ReplaceAll :: "string \<Rightarrow> string \<Rightarrow> string \<Rightarrow> string" where
  "strings_ReplaceAll s old new =
     (if old = [] then new @ concat (map (\<lambda>c. c # new) s) else replace_from old new 0 s)"

fun strings_Join :: "string list \<Rightarrow> string \<Rightarrow> string" where
  "strings_Join [] sep = []"
| "strings_Join [x] sep = x"
| "strings_Join (x # y # ys) sep = x @ sep @ strings_Join (y # ys) sep"

fun split_on :: "char \<Rightarrow> string \<Rightarrow> string list" where
  "split_on sep [] = [] # []"
| "split_on sep (c # cs) =
     (if c = sep then [] # split_on sep cs
      else (case split_on sep cs of [] \<Rightarrow> [c] # [] | x # xs \<Rightarrow> (c # x) # xs))"

text \<open>
  \<open>filepath.Clean\<close> on a Unix path, element by element: an empty element and \<open>.\<close> are
  dropped; \<open>..\<close> removes the element before it, is dropped at the root, and is kept at
  the start of a path that is not rooted. \<open>st\<close> holds the elements kept so far, the last
  one first.
\<close>

definition clean_step :: "bool \<Rightarrow> string list \<Rightarrow> string \<Rightarrow> string list" where
  "clean_step rooted st e =
     (if e = [] \<or> e = ''.'' then st
      else if e = ''..''
      then (case st of
              [] \<Rightarrow> (if rooted then [] else [''..''])
            | prev # below \<Rightarrow> (if prev = ''..'' then ''..'' # st else below))
      else e # st)"

definition filepath_Clean :: "string \<Rightarrow> string" where
  "filepath_Clean p =
     (if p = [] then ''.''
      else (let rooted = (hd p = CHR ''/'');
                st = foldl (clean_step rooted) [] (split_on (CHR ''/'') p);
                out = (if rooted then ''/'' else []) @ strings_Join (rev st) ''/''
            in if out = [] then ''.'' else out))"

text \<open>
  \<open>filepath.Join\<close> skips the leading empty elements, joins the rest with the separator
  and cleans the result; with no non-empty element it returns the empty string.
  \<open>filepath.Dir\<close> cleans what precedes the last element.
\<close>

definition filepath_Join :: "string list \<Rightarrow> string" where
  "filepath_Join elem =
     (case dropWhile (\<lambda>e. e = []) elem of
        [] \<Rightarrow> []
      | e # es \<Rightarrow> filepath_Clean (strings_Join (e # es) ''/''))"

definition filepath_Dir :: "string \<Rightarrow> string" where
  "filepath_Dir p = filepath_Clean (rev (dropWhile (\<lambda>c. c \<noteq> CHR ''/'') (rev p)))"

subsection \<open>unicode/utf8 and strings.ToLower\<close>

text \<open>
  A rune is an \<open>int\<close>. \<open>utf8.DecodeRuneInString\<close> returns the first rune of a string and
  its width in bytes: a byte below \<open>0x80\<close> is its own rune; a leading byte from \<open>0xC2\<close> to
  \<open>0xF4\<close> announces one, two or three continuation bytes, each in the range that the
  leading byte allows; anything else, and a sequence cut short, is \<open>RuneError\<close> of width 1
  (width 0 on the empty string).
\<close>

definition RuneError :: int where
  "RuneError = 0xFFFD"

definition byte :: "char \<Rightarrow> int" where
  "byte c = of_char c"

definition continuation :: "char \<Rightarrow> int \<Rightarrow> int \<Rightarrow> bool" where
  "continuation c lo hi = (lo \<le> byte c \<and> byte c \<le> hi)"

definition DecodeRuneInString :: "string \<Rightarrow> int \<times> nat" where
  "DecodeRuneInString s =
     (case s of
        [] \<Rightarrow> (RuneError, 0)
      | c0 # rest \<Rightarrow>
          (let s0 = byte c0 in
           if s0 < 0x80 then (s0, 1)
           else if s0 < 0xC2 \<or> 0xF4 < s0 then (RuneError, 1)
           else if s0 < 0xE0
           then (case rest of
                   c1 # u \<Rightarrow>
                     if continuation c1 0x80 0xBF
                     then ((s0 - 0xC0) * 64 + (byte c1 - 0x80), 2)
                     else (RuneError, 1)
                 | _ \<Rightarrow> (RuneError, 1))
           else if s0 < 0xF0
           then (case rest of
                   c1 # c2 # u \<Rightarrow>
                     if continuation c1 (if s0 = 0xE0 then 0xA0 else 0x80)
                                        (if s0 = 0xED then 0x9F else 0xBF)
                        \<and> continuation c2 0x80 0xBF
                     then ((s0 - 0xE0) * 4096 + (byte c1 - 0x80) * 64 + (byte c2 - 0x80), 3)
                     else (RuneError, 1)
                 | _ \<Rightarrow> (RuneError, 1))
           else (case rest of
                   c1 # c2 # c3 # u \<Rightarrow>
                     if continuation c1 (if s0 = 0xF0 then 0x90 else 0x80)
                                        (if s0 = 0xF4 then 0x8F else 0xBF)
                        \<and> continuation c2 0x80 0xBF \<and> continuation c3 0x80 0xBF
                     then ((s0 - 0xF0) * 262144 + (byte c1 - 0x80) * 4096
                             + (byte c2 - 0x80) * 64 + (byte c3 - 0x80), 4)
                     else (RuneError, 1)
                 | _ \<Rightarrow> (RuneError, 1))))"

text \<open>The runes of a string, as \<open>for _, r := range s\<close> yields them.\<close>

function runes :: "string \<Rightarrow> int list" where
  "runes s =
     (if s = [] then []
      else fst (DecodeRuneInString s) # runes (drop (snd (DecodeRuneInString s)) s))"
  by pat_completeness auto
termination
  by (relation "measure length")
     (auto simp: DecodeRuneInString_def Let_def split: list.splits)

declare runes.simps [simp del]

text \<open>
  \<open>utf8.EncodeRune\<close>, as \<open>strings.Builder.WriteRune\<close> appends a rune: a rune that is
  negative, past \<open>0x10FFFF\<close> or a surrogate is written as \<open>RuneError\<close>.
\<close>

definition EncodeRune :: "int \<Rightarrow> string" where
  "EncodeRune r =
     (if 0 \<le> r \<and> r < 0x80 then [char_of r]
      else if 0 \<le> r \<and> r < 0x800 then [char_of (0xC0 + r div 64), char_of (0x80 + r mod 64)]
      else if r < 0 \<or> 0x10FFFF < r \<or> (0xD800 \<le> r \<and> r \<le> 0xDFFF)
      then [char_of (0xEF :: int), char_of (0xBF :: int), char_of (0xBD :: int)]
      else if r < 0x10000
      then [char_of (0xE0 + r div 4096), char_of (0x80 + (r div 64) mod 64),
            char_of (0x80 + r mod 64)]
      else [char_of (0xF0 + r div 262144), char_of (0x80 + (r div 4096) mod 64),
            char_of (0x80 + (r div 64) mod 64), char_of (0x80 + r mod 64)])"

text \<open>
  \<open>unicode.ToLower\<close> maps an ASCII capital to its small letter and leaves the other
  ASCII runes; a rune past ASCII goes through the case tables of the \<open>unicode\<close> package
  (\<open>unicode.To(unicode.LowerCase, r)\<close>). The tables are data of the Go library and are
  taken as the parameter \<open>lc\<close>.

  \<open>strings.Map(mapping, s)\<close> decodes \<open>s\<close> rune by rune and writes the image of each
  rune, dropping a rune whose image is negative; a byte that is not valid UTF-8 is decoded
  as \<open>RuneError\<close> and so written as the three bytes of the image of \<open>RuneError\<close>.

  \<open>strings.ToLower(s)\<close> returns \<open>s\<close> when it is all ASCII without a capital, maps the
  bytes when it is all ASCII, and otherwise is \<open>strings.Map(unicode.ToLower, s)\<close>. On an
  ASCII string the three ways give the same bytes, and the model takes the last one.
\<close>

definition unicode_ToLower :: "(int \<Rightarrow> int) \<Rightarrow> int \<Rightarrow> int" where
  "unicode_ToLower lc r =
     (if r \<le> 0x7F then (if 65 \<le> r \<and> r \<le> 90 then r + 32 else r) else lc r)"

definition strings_Map :: "(int \<Rightarrow> int) \<Rightarrow> string \<Rightarrow> string" where
  "strings_Map mapping s =
     concat (map (\<lambda>c. if mapping c < 0 then [] else EncodeRune (mapping c)) (runes s))"

definition strings_ToLower :: "(int \<Rightarrow> int) \<Rightarrow> string \<Rightarrow> string" where
  "strings_ToLower lc s = strings_Map (unicode_ToLower lc) s"

subsection \<open>fsKey\<close>

definition fsKey :: "(int \<Rightarrow> int) \<Rightarrow> string \<Rightarrow> URL \<Rightarrow> string" where
  "fsKey lc root u =
     (let cleaned_params = strings_ReplaceAll (RawQuery u) ''/'' ''-'';
          noLeadingSlash = strings_TrimLeft (Path u) ''/'';
          cleaned_path = strings_ReplaceAll noLeadingSlash ''/'' ''-''
      in filepath_Join
           [root, Host u,
            strings_ToLower lc (cleaned_path @ ''?'' @ cleaned_params @ ''.gz'')])"

section \<open>The cache store\<close>

subsection \<open>The state and the collaborators\<close>

text \<open>
  A Go call either returns or panics (a nil pointer dereference).
\<close>

datatype 'a outcome = Panics | Returns 'a

text \<open>
  The state the operations pass along: the files by path (\<open>'z\<close> is the content of a
  file), the paths that the operating system refuses to read, and those it refuses to
  create or write; the clock, as \<open>time.Now().Unix()\<close>; the \<open>seenHosts\<close> set of the
  Store; the state of the transport client; and \<open>sent\<close>, the requests that were handed
  to the transport so far, in order. Directories are not part of the state: of
  \<open>os.MkdirAll\<close> the package sees the error or its absence.
\<close>

record ('c, 'z) world =
  files :: "string \<rightharpoonup> 'z"
  unreadable :: "string set"
  unwritable :: "string set"
  now :: int
  seenHosts :: "string set"
  client :: 'c
  sent :: "Request list"

definition os_ReadFile :: "('c, 'z) world \<Rightarrow> string \<Rightarrow> error + 'z" where
  "os_ReadFile w name =
     (if name \<in> unreadable w then Inl (Error ''permission denied'')
      else (case files w name of
              None \<Rightarrow> Inl (Error ''no such file or directory'')
            | Some z \<Rightarrow> Inr z))"

definition os_WriteFile ::
  "string \<Rightarrow> 'z \<Rightarrow> ('c, 'z) world \<Rightarrow> error option \<times> ('c, 'z) world" where
  "os_WriteFile name z w =
     (if name \<in> unwritable w then (Some (Error ''permission denied''), w)
      else (None, w\<lparr>files := (files w)(name \<mapsto> z)\<rparr>))"

definition os_MkdirAll :: "string \<Rightarrow> ('c, 'z) world \<Rightarrow> error option" where
  "os_MkdirAll dir w = (if dir \<in> unwritable w then Some (Error ''permission denied'') else None)"

text \<open>
  The library calls on file contents, taken as parameters: \<open>'g\<close> is an open
  \<open>gzip.Reader\<close> and \<open>'d\<close> uncompressed bytes. Each returns its error or its result.
  \<open>gzip_Write\<close> stands for \<open>gzip.NewWriter\<close>, \<open>Write\<close> and \<open>Close\<close> on a buffer.
  \<open>unicode_LowerCase\<close> is \<open>unicode.To(unicode.LowerCase, r)\<close>, the lower-case mapping
  of the library's tables, which \<open>fsKey\<close> reaches through \<open>strings.ToLower\<close>.
\<close>

record ('z, 'g, 'd) codec =
  gzip_NewReader :: "'z \<Rightarrow> error + 'g"
  io_ReadAll :: "'g \<Rightarrow> error + 'd"
  gzip_Close :: "'g \<Rightarrow> error option"
  http_ReadResponse :: "'g \<Rightarrow> Request \<Rightarrow> error + Response"
  httputil_DumpResponse :: "Response \<Rightarrow> error + 'd"
  gzip_Write :: "'d \<Rightarrow> error + 'z"
  unicode_LowerCase :: "int \<Rightarrow> int"

text \<open>
  The \<open>Client\<close> interface: \<open>Do\<close> takes a request and the client's state and returns a
  response pointer and an error, either of which may be nil, with the client's new state.
\<close>

type_synonym 'c client_Do = "Request \<Rightarrow> 'c \<Rightarrow> (Response option \<times> error option) \<times> 'c"

text \<open>
  A \<open>StoreFunc\<close> is \<open>NoOpStoreFunc\<close> or the closure that \<open>prepareForWriting\<close> returns,
  which holds the key and the dump.
\<close>

datatype 'd StoreFunc = NoOpStoreFunc | WriteStoreFunc string 'd

definition call_StoreFunc ::
  "('z, 'g, 'd) codec \<Rightarrow> 'd StoreFunc \<Rightarrow> ('c, 'z) world \<Rightarrow> error option \<times> ('c, 'z) world" where
  "call_StoreFunc cd f w =
     (case f of
        NoOpStoreFunc \<Rightarrow> (None, w)
      | WriteStoreFunc key dump \<Rightarrow>
          (case gzip_Write cd dump of
             Inl err \<Rightarrow> (Some err, w)
           | Inr buffer \<Rightarrow> os_WriteFile key buffer w))"

subsection \<open>Reading and writing an entry\<close>

definition readGZIPFile ::
  "('z, 'g, 'd) codec \<Rightarrow> ('c, 'z) world \<Rightarrow> string \<Rightarrow> 'g option \<times> error option" where
  "readGZIPFile cd w key =
     (case os_ReadFile w key of
        Inl err \<Rightarrow> (None, Some err)
      | Inr f \<Rightarrow>
          (case gzip_NewReader cd f of
             Inl err \<Rightarrow> (None, Some err)
           | Inr z \<Rightarrow> (Some z, None)))"

text \<open>
  \<open>http.ReadResponse\<close> reads through the reader it is given, so a nil reader that
  came without an error is a panic.
\<close>

definition readAndParseGZIPFile ::
  "('z, 'g, 'd) codec \<Rightarrow> ('c, 'z) world \<Rightarrow> string \<Rightarrow> Request
     \<Rightarrow> (Response option \<times> error option) outcome" where
  "readAndParseGZIPFile cd w key r =
     (case readGZIPFile cd w key of
        (gzipReader, Some err) \<Rightarrow> Returns (None, Some err)
      | (None, None) \<Rightarrow> Panics
      | (Some z, None) \<Rightarrow>
          (case http_ReadResponse cd z r of
             Inl err \<Rightarrow> Returns (None, Some err)
           | Inr rsp \<Rightarrow> Returns (Some rsp, None)))"

text \<open>
  \<open>prepareForWriting\<close> sets the two metadata headers on the response it is given and
  dumps it; it returns the closure and the response as it has become.
\<close>

definition prepareForWriting ::
  "Store \<Rightarrow> ('z, 'g, 'd) codec \<Rightarrow> string \<Rightarrow> int \<Rightarrow> Response \<Rightarrow> ('c, 'z) world
     \<Rightarrow> error + 'd StoreFunc \<times> Response" where
  "prepareForWriting s cd key version rsp w =
     (let h1 = Header_Set (Header rsp) (fetchTimestampKey s) (Sprintf_d (now w));
          h2 = Header_Set h1 (fetchVersionKey s) (Sprintf_d version);
          rsp' = rsp\<lparr>Header := h2\<rparr>
      in case httputil_DumpResponse cd rsp' of
           Inl err \<Rightarrow> Inl (Errorf ''failed to dump response'' err)
         | Inr dump \<Rightarrow> Inr (WriteStoreFunc key dump, rsp'))"

subsection \<open>internalCacheFetch\<close>

type_synonym ('c, 'z, 'd) fetched =
  "((Response option \<times> bool \<times> 'd StoreFunc \<times> error option) \<times> ('c, 'z) world) outcome"

text \<open>
  The second half of \<open>internalCacheFetch\<close>, from the line that clones the request
  headers: \<open>cachedRsp\<close>, \<open>etag\<close> and \<open>version\<close> are the local variables as the first half
  leaves them.
\<close>

definition fetchRemote ::
  "Store \<Rightarrow> ('z, 'g, 'd) codec \<Rightarrow> 'c client_Do \<Rightarrow> Request \<Rightarrow> string \<Rightarrow> Response option
     \<Rightarrow> string \<Rightarrow> int \<Rightarrow> ('c, 'z) world \<Rightarrow> ('c, 'z, 'd) fetched" where
  "fetchRemote s cd Do r key cachedRsp etag version w =
     (let r' = r\<lparr>ReqHeader := Header_Set (ReqHeader r) ifNoneMatchKey etag\<rparr>;
          result = Do r' (client w);
          w' = w\<lparr>client := snd result, sent := sent w @ [r']\<rparr>
      in case fst result of
           (rsp, Some err) \<Rightarrow> Returns ((rsp, False, NoOpStoreFunc, Some err), w')
         | (None, None) \<Rightarrow> Panics
         | (Some rsp, None) \<Rightarrow>
             if StatusCode rsp = 304
             then Returns ((cachedRsp, True, NoOpStoreFunc, None), w')
             else (case prepareForWriting s cd key (wrap64 (version + 1)) rsp w' of
                     Inl err \<Rightarrow>
                       Returns ((None, False, NoOpStoreFunc,
                                 Some (Errorf ''failed to write fixture'' err)), w')
                   | Inr (finalStoreFunc, rsp') \<Rightarrow>
                       Returns ((Some rsp', False, finalStoreFunc, None), w')))"

definition internalCacheFetch ::
  "Store \<Rightarrow> ('z, 'g, 'd) codec \<Rightarrow> 'c client_Do \<Rightarrow> Request \<Rightarrow> Time \<Rightarrow> ('c, 'z) world
     \<Rightarrow> ('c, 'z, 'd) fetched" where
  "internalCacheFetch s cd Do r lastModified w =
     (let key = fsKey (unicode_LowerCase cd) (fileSystemRoot s) (url r);
          hostDir = filepath_Dir key
      in case (if hostDir \<in> seenHosts w then None else os_MkdirAll hostDir w) of
           Some err \<Rightarrow> Returns ((None, False, NoOpStoreFunc, Some err), w)
         | None \<Rightarrow>
             (let w1 = w\<lparr>seenHosts := insert hostDir (seenHosts w)\<rparr>
              in case readAndParseGZIPFile cd w1 key r of
                   Panics \<Rightarrow> Panics
                 | Returns (cachedRsp, Some err) \<Rightarrow> fetchRemote s cd Do r key cachedRsp [] 0 w1
                 | Returns (None, None) \<Rightarrow> Panics
                 | Returns (Some c, None) \<Rightarrow>
                     (case shouldUseCachedValue s c lastModified of
                        (storedVersion, True) \<Rightarrow>
                          Returns ((Some c, True, NoOpStoreFunc, None), w1)
                      | (storedVersion, False) \<Rightarrow>
                          fetchRemote s cd Do r key (Some c)
                            (Header_Get (Header c) etagKey) storedVersion w1)))"

subsection \<open>The public operations\<close>

definition CacheFetch ::
  "Store \<Rightarrow> ('z, 'g, 'd) codec \<Rightarrow> 'c client_Do \<Rightarrow> Request \<Rightarrow> Time \<Rightarrow> ('c, 'z) world
     \<Rightarrow> ('c, 'z, 'd) fetched" where
  "CacheFetch s cd Do r lastModified w = internalCacheFetch s cd Do r lastModified w"

definition CacheFetchAndStore ::
  "Store \<Rightarrow> ('z, 'g, 'd) codec \<Rightarrow> 'c client_Do \<Rightarrow> Request \<Rightarrow> Time \<Rightarrow> ('c, 'z) world
     \<Rightarrow> ((Response option \<times> bool \<times> error option) \<times> ('c, 'z) world) outcome" where
  "CacheFetchAndStore s cd Do r lastModified w =
     (case CacheFetch s cd Do r lastModified w of
        Panics \<Rightarrow> Panics
      | Returns ((rsp, cached, storeFunc, Some err), w1) \<Rightarrow> Returns ((rsp, cached, Some err), w1)
      | Returns ((rsp, cached, storeFunc, None), w1) \<Rightarrow>
          (case call_StoreFunc cd storeFunc w1 of
             (Some err, w2) \<Rightarrow> Returns ((rsp, cached, Some err), w2)
           | (None, w2) \<Rightarrow> Returns ((rsp, cached, None), w2)))"

definition RawCacheData ::
  "Store \<Rightarrow> ('z, 'g, 'd) codec \<Rightarrow> URL \<Rightarrow> ('c, 'z) world \<Rightarrow> ('d option \<times> error option) outcome"
  where
  "RawCacheData s cd u w =
     (let key = fsKey (unicode_LowerCase cd) (fileSystemRoot s) u;
          (gzipReader, err) = readGZIPFile cd w key
      in if err \<noteq> err then Returns (None, err)
         else (case gzipReader of
                 None \<Rightarrow> Panics
               | Some z \<Rightarrow>
                   (case io_ReadAll cd z of
                      Inl err \<Rightarrow> Returns (None, Some err)
                    | Inr data \<Rightarrow>
                        (case gzip_Close cd z of
                           Some err \<Rightarrow> Returns (None, Some err)
                         | None \<Rightarrow> Returns (Some data, None)))))"

section \<open>The doubles of the test file\<close>

text \<open>
  \<open>dummyClient\<close> of \<open>httpclient_test.go\<close>: it counts the requests and answers each with
  its status code and body, no header and a content length left at zero.
\<close>

record dummyClient =
  statusCode :: int
  body :: string
  requests :: nat

definition dummy_Do :: "dummyClient client_Do" where
  "dummy_Do req d =
     ((Some \<lparr>StatusCode = statusCode d, Header = [], ContentLength = 0, Body = body d\<rparr>,
       None),
      d\<lparr>requests := requests d + 1\<rparr>)"

text \<open>
  A codec that keeps entries in memory, for the runs of the test file. It follows what
  \<open>httputil.DumpResponse\<close> and \<open>http.ReadResponse\<close> do to a response that, like those
  of \<open>dummyClient\<close>, has a body, protocol version \<open>0.0\<close>, no status text, no transfer
  encoding and no trailer, read for a \<open>GET\<close> request. A dump is kept as its status code,
  its header lines in order and the bytes after the headers; compression is the identity.
  The lower-case mapping is the Latin-1 part of the tables of the library, which is all
  that the runs below need.
\<close>

record wire =
  status_line :: int
  header_lines :: "(string \<times> string) list"
  payload :: string

text \<open>
  \<open>Header.WriteSubset\<close> writes the header names in byte order, leaving out the names
  \<open>Content-Length\<close>, \<open>Transfer-Encoding\<close> and \<open>Trailer\<close> and every name that is not a
  token; in each value a line break becomes a space and the white space at both ends is
  trimmed.
\<close>

definition isASCIISpace :: "char \<Rightarrow> bool" where
  "isASCIISpace c = (c = CHR '' '' \<or> c = CHR 0x09 \<or> c = CHR 0x0A \<or> c = CHR 0x0D)"

definition textproto_TrimString :: "string \<Rightarrow> string" where
  "textproto_TrimString s = rev (dropWhile isASCIISpace (rev (dropWhile isASCIISpace s)))"

definition headerNewlineToSpace :: "string \<Rightarrow> string" where
  "headerNewlineToSpace s = map (\<lambda>c. if c = CHR 0x0A \<or> c = CHR 0x0D then CHR '' '' else c) s"

definition ValidHeaderFieldName :: "string \<Rightarrow> bool" where
  "ValidHeaderFieldName k = (k \<noteq> [] \<and> list_all validHeaderFieldByte k)"

definition respExcludeHeader :: "string list" where
  "respExcludeHeader = [''Content-Length'', ''Transfer-Encoding'', ''Trailer'']"

definition bodyAllowedForStatus :: "int \<Rightarrow> bool" where
  "bodyAllowedForStatus status =
     (\<not> (100 \<le> status \<and> status \<le> 199) \<and> status \<noteq> 204 \<and> status \<noteq> 304)"

fun bytes_less :: "string \<Rightarrow> string \<Rightarrow> bool" where
  "bytes_less [] [] = False"
| "bytes_less [] (d # ds) = True"
| "bytes_less (c # cs) [] = False"
| "bytes_less (c # cs) (d # ds) = (byte c < byte d \<or> (c = d \<and> bytes_less cs ds))"

fun insert_sorted :: "string \<times> string list \<Rightarrow> header \<Rightarrow> header" where
  "insert_sorted kv [] = [kv]"
| "insert_sorted kv (x # xs) =
     (if bytes_less (fst kv) (fst x) then kv # x # xs else x # insert_sorted kv xs)"

definition sortedKeyValues :: "header \<Rightarrow> header" where
  "sortedKeyValues h =
     foldr insert_sorted
       (filter (\<lambda>kv. fst kv \<notin> set respExcludeHeader) (AList.clearjunk h)) []"

definition WriteSubset :: "header \<Rightarrow> (string \<times> string) list" where
  "WriteSubset h =
     concat (map (\<lambda>kv. map (\<lambda>v. (fst kv, textproto_TrimString (headerNewlineToSpace v)))
                          (snd kv))
               (filter (\<lambda>kv. ValidHeaderFieldName (fst kv)) (sortedKeyValues h)))"

text \<open>
  \<open>Response.Write\<close>: a content length of zero with a body that is not empty is an
  unknown length. A positive length is written as the first header line, a length of zero
  as the last one when the status allows a body. The body is written whole, and a declared
  length that is not its length is an error.
\<close>

definition Response_Write :: "Response \<Rightarrow> error + wire" where
  "Response_Write rsp =
     (let cl = (if ContentLength rsp = 0 \<and> Body rsp \<noteq> [] then - 1 else ContentLength rsp);
          first = (if 0 < cl then [(''Content-Length'', Sprintf_d cl)] else []);
          zero = (if cl = 0 \<and> bodyAllowedForStatus (StatusCode rsp)
                  then [(''Content-Length'', ''0'')] else [])
      in if cl \<noteq> - 1 \<and> cl \<noteq> int (length (Body rsp))
         then Inl (Error ''http: ContentLength with Body length'')
         else Inr \<lparr>status_line = StatusCode rsp,
                   header_lines = first @ WriteSubset (Header rsp) @ zero,
                   payload = Body rsp\<rparr>)"

text \<open>
  \<open>http.ReadResponse\<close>: the status code has three digits; the header names are made
  canonical and the values of one name collected in order; \<open>Pragma: no-cache\<close> adds a
  \<open>Cache-Control\<close> header when there is none; the content length is 0 for a status without
  body, the \<open>Content-Length\<close> header when there is one, \<open>-1\<close> otherwise, and the body is
  cut at that length.
\<close>

definition add_line :: "header \<Rightarrow> string \<times> string \<Rightarrow> header" where
  "add_line h kv =
     (let key = CanonicalMIMEHeaderKey (fst kv)
      in case map_of h key of
           None \<Rightarrow> h @ [(key, [snd kv])]
         | Some vs \<Rightarrow> AList.update key (vs @ [snd kv]) h)"

definition ReadMIMEHeader :: "(string \<times> string) list \<Rightarrow> header" where
  "ReadMIMEHeader ls = foldl add_line [] ls"

definition fixPragmaCacheControl :: "header \<Rightarrow> header" where
  "fixPragmaCacheControl h =
     (case map_of h ''Pragma'' of
        Some (hp # others) \<Rightarrow>
          if hp = ''no-cache'' \<and> map_of h ''Cache-Control'' = None
          then h @ [(''Cache-Control'', [''no-cache''])] else h
      | _ \<Rightarrow> h)"

definition parseContentLength :: "string \<Rightarrow> error + int" where
  "parseContentLength cl =
     (case parse_digits 0 cl of
        None \<Rightarrow> Inl (Error ''bad Content-Length'')
      | Some n \<Rightarrow> if n < 2 ^ 63 then Inr n else Inl (Error ''bad Content-Length''))"

definition fixLength :: "int \<Rightarrow> header \<Rightarrow> error + int \<times> header" where
  "fixLength status h =
     (case map_of h ''Content-Length'' of
        None \<Rightarrow> Inr (if bodyAllowedForStatus status then - 1 else 0, h)
      | Some [] \<Rightarrow>
          if bodyAllowedForStatus status then Inr (- 1, AList.delete ''Content-Length'' h)
          else Inr (0, h)
      | Some (v # vs) \<Rightarrow>
          (let first = textproto_TrimString v;
               h1 = (if vs = [] then h else AList.update ''Content-Length'' [first] h)
           in if list_ex (\<lambda>x. textproto_TrimString x \<noteq> first) vs
              then Inl (Error ''http: message cannot contain multiple Content-Length headers'')
              else if \<not> bodyAllowedForStatus status then Inr (0, h1)
              else if first \<noteq> []
              then (case parseContentLength first of
                      Inl err \<Rightarrow> Inl err
                    | Inr n \<Rightarrow> Inr (n, h1))
              else Inr (- 1, AList.delete ''Content-Length'' h1)))"

definition ReadResponse :: "wire \<Rightarrow> Request \<Rightarrow> error + Response" where
  "ReadResponse z req =
     (if status_line z < 0 \<or> 999 < status_line z
      then Inl (Error ''malformed HTTP status code'')
      else (case fixLength (status_line z)
                   (fixPragmaCacheControl (ReadMIMEHeader (header_lines z))) of
              Inl err \<Rightarrow> Inl err
            | Inr (n, h) \<Rightarrow>
                Inr \<lparr>StatusCode = status_line z, Header = h, ContentLength = n,
                     Body = (if n < 0 then payload z else take (nat n) (payload z))\<rparr>))"

definition latin1_LowerCase :: "int \<Rightarrow> int" where
  "latin1_LowerCase r = (if 0xC0 \<le> r \<and> r \<le> 0xDE \<and> r \<noteq> 0xD7 then r + 32 else r)"

definition mem_codec :: "(wire, wire, wire) codec" where
  "mem_codec =
     \<lparr>gzip_NewReader = Inr,
      io_ReadAll = Inr,
      gzip_Close = (\<lambda>z. None),
      http_ReadResponse = ReadResponse,
      httputil_DumpResponse = Response_Write,
      gzip_Write = Inr,
      unicode_LowerCase = latin1_LowerCase\<rparr>"

text \<open>\<open>NewStore(root, WithClient(dummyClient), WithMaxErrorVersion(n))\<close>.\<close>

definition NewStore :: "string \<Rightarrow> int \<Rightarrow> Store" where
  "NewStore root n =
     \<lparr>fileSystemRoot = root, maxErrorVersion = n,
      fetchTimestampKey = ''X-Elucidate-Time'', fetchVersionKey = ''X-Elucidate-Version''\<rparr>"

text \<open>An empty directory, a clock and a fresh client.\<close>

definition fresh_world :: "int \<Rightarrow> 'c \<Rightarrow> ('c, 'z) world" where
  "fresh_world t c =
     \<lparr>files = Map.empty, unreadable = {}, unwritable = {}, now = t, seenHosts = {},
      client = c, sent = []\<rparr>"

text \<open>\<open>http.NewRequest(http.MethodGet, "http://example.com", nil)\<close>.\<close>

definition example_request :: Request where
  "example_request =
     \<lparr>url = \<lparr>Host = ''example.com'', Path = [], RawQuery = []\<rparr>, ReqHeader = []\<rparr>"

text \<open>
  A run of fetches, each committed at once: every step gives the clock at the call and
  the cutoff, and the run returns, for each call, whether it was a cache hit, with the
  state at the end. A panic or an error ends the run.
\<close>

fun fetches ::
  "Store \<Rightarrow> ('z, 'g, 'd) codec \<Rightarrow> 'c client_Do \<Rightarrow> Request \<Rightarrow> (int \<times> Time) list
     \<Rightarrow> ('c, 'z) world \<Rightarrow> (bool list \<times> ('c, 'z) world) option" where
  "fetches s cd Do r [] w = Some ([], w)"
| "fetches s cd Do r ((t, lastModified) # steps) w =
     (case CacheFetchAndStore s cd Do r lastModified (w\<lparr>now := t\<rparr>) of
        Returns ((rsp, cached, None), w') \<Rightarrow>
          (case fetches s cd Do r steps w' of
             None \<Rightarrow> None
           | Some (hits, w'') \<Rightarrow> Some (cached # hits, w''))
      | _ \<Rightarrow> None)"

section \<open>Notions used in the statements\<close>

text \<open>
  The directory step of \<open>internalCacheFetch\<close> passes when the directory of the key was
  seen before or can be created; \<open>seen\<close> is the state after that step.
\<close>

definition dir_ready :: "('z, 'g, 'd) codec \<Rightarrow> Store \<Rightarrow> Request \<Rightarrow> ('c, 'z) world \<Rightarrow> bool" where
  "dir_ready cd s r w =
     (filepath_Dir (fsKey (unicode_LowerCase cd) (fileSystemRoot s) (url r)) \<in> seenHosts w
      \<or> filepath_Dir (fsKey (unicode_LowerCase cd) (fileSystemRoot s) (url r)) \<notin> unwritable w)"

definition seen :: "('z, 'g, 'd) codec \<Rightarrow> Store \<Rightarrow> Request \<Rightarrow> ('c, 'z) world \<Rightarrow> ('c, 'z) world" where
  "seen cd s r w =
     w\<lparr>seenHosts := insert (filepath_Dir
         (fsKey (unicode_LowerCase cd) (fileSystemRoot s) (url r))) (seenHosts w)\<rparr>"

text \<open>
  The entry at the key cannot be had, with error \<open>e\<close>: the file cannot be read, or it
  is read and the decompressor refuses it, or it is decompressed and the response does not
  parse.
\<close>

definition entry_fails ::
  "('z, 'g, 'd) codec \<Rightarrow> ('c, 'z) world \<Rightarrow> string \<Rightarrow> Request \<Rightarrow> error \<Rightarrow> bool" where
  "entry_fails cd w key r e =
     (case os_ReadFile w key of
        Inl err \<Rightarrow> err = e
      | Inr f \<Rightarrow>
          (case gzip_NewReader cd f of
             Inl err \<Rightarrow> err = e
           | Inr z \<Rightarrow> http_ReadResponse cd z r = Inl e))"

text \<open>The request as the transport receives it when no entity tag is known.\<close>

definition untagged :: "Request \<Rightarrow> Request" where
  "untagged r = r\<lparr>ReqHeader := Header_Set (ReqHeader r) ifNoneMatchKey []\<rparr>"

text \<open>Entries and clients of the examples.\<close>

definition short_entry :: Response where
  "short_entry = \<lparr>StatusCode = 200, Header = [], ContentLength = 5, Body = ''hello''\<rparr>"

definition dummy :: "int \<Rightarrow> string \<Rightarrow> dummyClient" where
  "dummy code b = \<lparr>statusCode = code, body = b, requests = 0\<rparr>"

text \<open>
  A transport that fails as \<open>http.Client.Do\<close> does when it gives up on a redirect: it
  returns the last response together with the error.
\<close>

definition failing_Do :: "dummyClient client_Do" where
  "failing_Do req d =
     ((Some \<lparr>StatusCode = 302, Header = [], ContentLength = 0, Body = []\<rparr>,
       Some (Error ''stopped after 10 redirects'')),
      d\<lparr>requests := requests d + 1\<rparr>)"

definition empty_dir :: "int \<Rightarrow> string \<Rightarrow> (dummyClient, wire) world" where
  "empty_dir code b = fresh_world 1000 (dummy code b)"

definition test_store :: Store where
  "test_store = NewStore ''/tmp/t'' 2"

text \<open>
  A store that retries no error status, and a directory in which the file of the example
  request can be written and not read.
\<close>

definition no_retry_store :: Store where
  "no_retry_store = NewStore ''/tmp/t'' 0"

definition locked_dir :: "(dummyClient, wire) world" where
  "locked_dir =
     (empty_dir 200 ''hello, world'')
       \<lparr>unreadable := {fsKey (unicode_LowerCase mem_codec) (fileSystemRoot test_store)
                          (url example_request)}\<rparr>"



definition stored_version ::
  "Store \<Rightarrow> ('z, 'g, 'd) codec \<Rightarrow> Request \<Rightarrow> ('c, 'z) world \<Rightarrow> string option" where
  "stored_version s cd r w =
     (case readAndParseGZIPFile cd w (fsKey (unicode_LowerCase cd) (fileSystemRoot s) (url r)) r of
        Returns (Some c, None) \<Rightarrow> Some (Header_Get (Header c) (fetchVersionKey s))
      | _ \<Rightarrow> None)"

text \<open>The write-timestamp of the entry that is read back, when it has one that parses.\<close>

definition stored_time ::
  "Store \<Rightarrow> ('z, 'g, 'd) codec \<Rightarrow> Request \<Rightarrow> ('c, 'z) world \<Rightarrow> Time option" where
  "stored_time s cd r w =
     (case readAndParseGZIPFile cd w (fsKey (unicode_LowerCase cd) (fileSystemRoot s) (url r)) r of
        Returns (Some c, None) \<Rightarrow>
          (case getWriteTimestamp s c of Inl err \<Rightarrow> None | Inr t \<Rightarrow> Some t)
      | _ \<Rightarrow> None)"

text \<open>\<open>time.Now()\<close> as a cutoff, at the start of second \<open>t\<close> of the clock.\<close>

definition time_Now :: "int \<Rightarrow> Time" where
  "time_Now t = \<lparr>t_sec = t + unixToInternal, t_nsec = 0\<rparr>"



text \<open>
  An ASCII byte, and an ASCII capital. The lower-case mapping \<open>lc\<close> keeps off the
  separator when it sends no rune past ASCII to \<open>/\<close>, as is the case of the tables of
  the library, whose images are letters.
\<close>

definition ascii :: "char \<Rightarrow> bool" where
  "ascii c = (byte c < 0x80)"

definition capital :: "char \<Rightarrow> bool" where
  "capital c = (65 \<le> byte c \<and> byte c \<le> 90)"

definition slash_free :: "(int \<Rightarrow> int) \<Rightarrow> bool" where
  "slash_free lc = (\<forall>r. 0x80 \<le> r \<longrightarrow> lc r \<noteq> 0x2F)"

text \<open>
  The key as the specification words it. \<open>hyphenate\<close> replaces every separator by a
  hyphen; \<open>strip_leading_separator\<close> strips the leading separator of a path, and
  \<open>claimed_key\<close> is the key built with it.
\<close>

definition hyphenate :: "string \<Rightarrow> string" where
  "hyphenate s = map (\<lambda>c. if c = CHR ''/'' then CHR ''-'' else c) s"

definition strip_leading_separator :: "string \<Rightarrow> string" where
  "strip_leading_separator p =
     (case p of [] \<Rightarrow> [] | c # cs \<Rightarrow> if c = CHR ''/'' then cs else c # cs)"

definition claimed_key :: "(int \<Rightarrow> int) \<Rightarrow> string \<Rightarrow> URL \<Rightarrow> string" where
  "claimed_key lc root u =
     filepath_Join
       [root, Host u,
        strings_ToLower lc (hyphenate (strip_leading_separator (Path u)) @ ''?''
                         @ hyphenate (RawQuery u) @ ''.gz'')]"

text \<open>
  The last element of a key, as the code builds it, and the last element of any path.
  An element of three bytes or more without a separator is kept by \<open>filepath.Clean\<close>.
\<close>

definition key_element :: "(int \<Rightarrow> int) \<Rightarrow> URL \<Rightarrow> string" where
  "key_element lc u =
     strings_ToLower lc (hyphenate (dropWhile (\<lambda>c. c = CHR ''/'') (Path u)) @ ''?''
                      @ hyphenate (RawQuery u) @ ''.gz'')"

definition last_element :: "string \<Rightarrow> string" where
  "last_element p = last (split_on (CHR ''/'') p)"

definition proper_element :: "string \<Rightarrow> bool" where
  "proper_element e = (CHR ''/'' \<notin> set e \<and> 3 \<le> length e)"

text \<open>A value that fits a 64-bit integer.\<close>

definition in_int64 :: "int \<Rightarrow> bool" where
  "in_int64 n = (- (2 ^ 63) \<le> n \<and> n < 2 ^ 63)"

text \<open>
  The response as \<open>prepareForWriting\<close> leaves it, and the request with its
  \<open>If-None-Match\<close> header set.
\<close>

definition stamp :: "Store \<Rightarrow> int \<Rightarrow> int \<Rightarrow> Response \<Rightarrow> Response" where
  "stamp s t version rsp =
     rsp\<lparr>Header := Header_Set (Header_Set (Header rsp) (fetchTimestampKey s) (Sprintf_d t))
                       (fetchVersionKey s) (Sprintf_d version)\<rparr>"

definition tagged :: "Request \<Rightarrow> string \<Rightarrow> Request" where
  "tagged r etag = r\<lparr>ReqHeader := Header_Set (ReqHeader r) ifNoneMatchKey etag\<rparr>"

text \<open>
  The request that \<open>internalCacheFetch\<close> hands to the transport once the directory step
  has passed, if it hands one: the request without entity tag when the entry cannot be
  had, the request with the entity tag of the entry when the policy reports a miss, and
  none when the policy reports a hit.
\<close>

definition revalidation ::
  "Store \<Rightarrow> ('z, 'g, 'd) codec \<Rightarrow> Request \<Rightarrow> Time \<Rightarrow> ('c, 'z) world \<Rightarrow> Request option"
  where
  "revalidation s cd r lastModified w =
     (case readAndParseGZIPFile cd w (fsKey (unicode_LowerCase cd) (fileSystemRoot s) (url r)) r of
        Returns (cachedRsp, Some err) \<Rightarrow> Some (untagged r)
      | Returns (Some c, None) \<Rightarrow>
          (case shouldUseCachedValue s c lastModified of
             (storedVersion, True) \<Rightarrow> None
           | (storedVersion, False) \<Rightarrow> Some (tagged r (Header_Get (Header c) etagKey)))
      | _ \<Rightarrow> None)"

text \<open>
  The codec keeps a response when the response can be dumped and compressed, and what was
  written reads back with the same status, metadata headers and body, and with a content
  length that is unknown or at least 10.
\<close>

definition keeps :: "('z, 'g, 'd) codec \<Rightarrow> Store \<Rightarrow> Request \<Rightarrow> Response \<Rightarrow> bool" where
  "keeps cd s r rsp =
     (case httputil_DumpResponse cd rsp of
        Inl err \<Rightarrow> False
      | Inr dump \<Rightarrow>
          (case gzip_Write cd dump of
             Inl err \<Rightarrow> False
           | Inr buffer \<Rightarrow>
               (case gzip_NewReader cd buffer of
                  Inl err \<Rightarrow> False
                | Inr z \<Rightarrow>
                    (case http_ReadResponse cd z r of
                       Inl err \<Rightarrow> False
                     | Inr c \<Rightarrow>
                         StatusCode c = StatusCode rsp
                         \<and> Header_Get (Header c) (fetchTimestampKey s)
                             = Header_Get (Header rsp) (fetchTimestampKey s)
                         \<and> Header_Get (Header c) (fetchVersionKey s)
                             = Header_Get (Header rsp) (fetchVersionKey s)
                         \<and> Body c = Body rsp
                         \<and> (ContentLength c = - 1 \<or> 10 \<le> ContentLength c)))))"

text \<open>
  The key can be used when the directory step passes and the operating system neither
  refuses to read nor to write the file.
\<close>

definition usable :: "('z, 'g, 'd) codec \<Rightarrow> Store \<Rightarrow> Request \<Rightarrow> ('c, 'z) world \<Rightarrow> bool" where
  "usable cd s r w =
     (dir_ready cd s r w
      \<and> fsKey (unicode_LowerCase cd) (fileSystemRoot s) (url r) \<notin> unreadable w
      \<and> fsKey (unicode_LowerCase cd) (fileSystemRoot s) (url r) \<notin> unwritable w)"

text \<open>
  A transport that always fails the same way: in every state that satisfies \<open>I\<close> it
  answers any request with a response and no error, the status is one of the six of the
  policy, the codec keeps the response however it is stamped, and \<open>I\<close> holds again.
\<close>

definition always_retry ::
  "Store \<Rightarrow> ('z, 'g, 'd) codec \<Rightarrow> 'c client_Do \<Rightarrow> Request \<Rightarrow> ('c \<Rightarrow> bool) \<Rightarrow> bool" where
  "always_retry s cd Do r I =
     (\<forall>req c. I c \<longrightarrow>
        (\<exists>rsp c'. Do req c = ((Some rsp, None), c') \<and> I c' \<and> retryStatus (StatusCode rsp)
                   \<and> (\<forall>t v. keeps cd s r (stamp s t v rsp))))"

text \<open>
  The entry at the key is read back as \<open>c\<close>, an error response with version \<open>k\<close> and
  write-timestamp \<open>ts\<close> that the policy can use; \<open>retry_state\<close> is the state of the key
  after \<open>k\<close> writes of such entries.
\<close>

definition error_entry ::
  "Store \<Rightarrow> ('z, 'g, 'd) codec \<Rightarrow> Request \<Rightarrow> ('c, 'z) world \<Rightarrow> int \<Rightarrow> int \<Rightarrow> Response \<Rightarrow> bool"
  where
  "error_entry s cd r w k ts c =
     (readAndParseGZIPFile cd w (fsKey (unicode_LowerCase cd) (fileSystemRoot s) (url r)) r
         = Returns (Some c, None)
      \<and> retryStatus (StatusCode c)
      \<and> Header_Get (Header c) (fetchVersionKey s) = Sprintf_d k
      \<and> Header_Get (Header c) (fetchTimestampKey s) = Sprintf_d ts
      \<and> (ContentLength c = - 1 \<or> 10 \<le> ContentLength c))"

definition retry_state ::
  "Store \<Rightarrow> ('z, 'g, 'd) codec \<Rightarrow> Request \<Rightarrow> ('c, 'z) world \<Rightarrow> int \<Rightarrow> bool" where
  "retry_state s cd r w k =
     ((k = 0 \<and> (\<exists>e. readAndParseGZIPFile cd w
         (fsKey (unicode_LowerCase cd) (fileSystemRoot s) (url r)) r
                       = Returns (None, Some e)))
      \<or> (0 < k \<and> (\<exists>ts c. in_int64 ts \<and> error_entry s cd r w k ts c)))"

definition failing_dummy :: "dummyClient \<Rightarrow> bool" where
  "failing_dummy d = (statusCode d = 500 \<and> body d = ''hello, world'')"

definition three_fetches :: "(int \<times> Time) list" where
  "three_fetches = [(1000, time_zero), (1001, time_zero), (1002, time_zero)]"

definition two_more :: "(int \<times> Time) list" where
  "two_more = [(1003, time_zero), (1004, time_Unix 1001)]"

section \<open>Properties\<close>

subsection \<open>Steps of internalCacheFetch\<close>

lemma readGZIPFile_seenHosts [simp]:
  "readGZIPFile cd (w\<lparr>seenHosts := S\<rparr>) key = readGZIPFile cd w key"
  by (simp add: readGZIPFile_def os_ReadFile_def)

lemma readAndParseGZIPFile_seenHosts [simp]:
  "readAndParseGZIPFile cd (w\<lparr>seenHosts := S\<rparr>) key r = readAndParseGZIPFile cd w key r"
  by (simp add: readAndParseGZIPFile_def)

lemma entry_fails_iff:
  "entry_fails cd w key r e \<longleftrightarrow> readAndParseGZIPFile cd w key r = Returns (None, Some e)"
  by (auto simp: entry_fails_def readAndParseGZIPFile_def readGZIPFile_def split: sum.splits)

lemma internalCacheFetch_no_entry:
  assumes "dir_ready cd s r w"
      and "readAndParseGZIPFile cd w (fsKey (unicode_LowerCase cd) (fileSystemRoot s) (url r)) r
          = Returns (None, Some e)"
  shows "internalCacheFetch s cd Do r lastModified w =
         fetchRemote s cd Do r
             (fsKey (unicode_LowerCase cd) (fileSystemRoot s) (url r)) None [] 0 (seen cd s r w)"
  using assms by (auto simp: internalCacheFetch_def dir_ready_def seen_def os_MkdirAll_def Let_def)

lemma CacheFetch_no_entry:
  assumes "dir_ready cd s r w"
      and "readAndParseGZIPFile cd w (fsKey (unicode_LowerCase cd) (fileSystemRoot s) (url r)) r
          = Returns (None, Some e)"
  shows "CacheFetch s cd Do r lastModified w =
         fetchRemote s cd Do r
             (fsKey (unicode_LowerCase cd) (fileSystemRoot s) (url r)) None [] 0 (seen cd s r w)"
  using assms by (simp add: CacheFetch_def internalCacheFetch_no_entry)


lemma internalCacheFetch_cases:
  assumes "internalCacheFetch s cd Do r lastModified w = Returns (res, w')"
  shows "(w' = w \<and> (\<exists>e. res = (None, False, NoOpStoreFunc, Some e)))
       \<or> (w' = seen cd s r w \<and> (\<exists>c. res = (Some c, True, NoOpStoreFunc, None)))
       \<or> (\<exists>cachedRsp etag version.
             fetchRemote s cd Do r
                 (fsKey (unicode_LowerCase cd) (fileSystemRoot s) (url r)) cachedRsp etag version
               (seen cd s r w) = Returns (res, w'))"
  using assms
  by (auto simp: internalCacheFetch_def seen_def Let_def
      split: option.splits outcome.splits prod.splits bool.splits if_splits)


lemma dir_ready_files [simp]: "dir_ready cd s r (w\<lparr>files := F\<rparr>) = dir_ready cd s r w"
  by (simp add: dir_ready_def)



subsection \<open>The freshness policy on entries it cannot use\<close>

text \<open>
  Claim C6. \<open>shouldUseCachedValue\<close> reports version 0 and no hit when the stored response
  declares a content length other than \<open>-1\<close> that is below 10, when its write-timestamp
  header is absent (\<open>Get\<close> returns the empty string) or does not parse, and when its
  version header is present and does not parse. A response without a version header has
  version 1.
\<close>

theorem C6_unusable_entry:
  "((ContentLength rsp \<noteq> - 1 \<and> ContentLength rsp < 10)
     \<or> Header_Get (Header rsp) (fetchTimestampKey s) = []
     \<or> isl (ParseInt (Header_Get (Header rsp) (fetchTimestampKey s)))
     \<or> (Header_Get (Header rsp) (fetchVersionKey s) \<noteq> []
         \<and> isl (Atoi (Header_Get (Header rsp) (fetchVersionKey s))))
    \<longrightarrow> shouldUseCachedValue s rsp lastModified = (0, False))
   \<and> (Header_Get (Header rsp) (fetchVersionKey s) = [] \<longrightarrow> getVersion s rsp = Inr 1)"
  by (auto simp: shouldUseCachedValue_def getWriteTimestamp_def getVersion_def
      minimumContentLength_def Let_def split: sum.splits)

theorem C6_unusable_entry_witness:
  "ContentLength short_entry \<noteq> - 1 \<and> ContentLength short_entry < 10
   \<and> Header_Get (Header short_entry) (fetchVersionKey test_store) = []
   \<and> shouldUseCachedValue test_store short_entry time_zero = (0, False)
   \<and> getVersion test_store short_entry = Inr 1"
proof -
  have h1: "ContentLength short_entry \<noteq> - 1 \<and> ContentLength short_entry < 10"
    by code_simp
  have h2: "Header_Get (Header short_entry) (fetchVersionKey test_store) = []"
    by code_simp
  from C6_unusable_entry [of short_entry test_store time_zero] h1 h2
  show ?thesis by simp
qed

subsection \<open>Failures of the stored entry and of the transport\<close>

lemma fetchRemote_answer:
  assumes "Do (tagged r etag) (client w) = (answer, c')"
  shows "fetchRemote s cd Do r key cachedRsp etag version w =
           (case answer of
              (rsp, Some err) \<Rightarrow>
                Returns ((rsp, False, NoOpStoreFunc, Some err),
                         w\<lparr>client := c', sent := sent w @ [tagged r etag]\<rparr>)
            | (None, None) \<Rightarrow> Panics
            | (Some rsp, None) \<Rightarrow>
                if StatusCode rsp = 304
                then Returns ((cachedRsp, True, NoOpStoreFunc, None),
                              w\<lparr>client := c', sent := sent w @ [tagged r etag]\<rparr>)
                else (case httputil_DumpResponse cd (stamp s (now w) (wrap64 (version + 1)) rsp) of
                        Inl err \<Rightarrow>
                          Returns ((None, False, NoOpStoreFunc,
                                    Some (Errorf ''failed to write fixture''
                                            (Errorf ''failed to dump response'' err))),
                                   w\<lparr>client := c', sent := sent w @ [tagged r etag]\<rparr>)
                      | Inr dump \<Rightarrow>
                          Returns ((Some (stamp s (now w) (wrap64 (version + 1)) rsp), False,
                                    WriteStoreFunc key dump, None),
                                   w\<lparr>client := c', sent := sent w @ [tagged r etag]\<rparr>)))"
  using assms
  by (auto simp: fetchRemote_def prepareForWriting_def tagged_def stamp_def Let_def
      split: prod.splits option.splits sum.splits)


lemma untagged_tagged: "untagged r = tagged r []"
  by (simp add: untagged_def tagged_def)

lemma internalCacheFetch_revalidation:
  assumes "dir_ready cd s r w" and "revalidation s cd r lastModified w = Some r'"
  shows "\<exists>cachedRsp etag version.
           r' = tagged r etag
           \<and> internalCacheFetch s cd Do r lastModified w
               = fetchRemote s cd Do r (fsKey (unicode_LowerCase cd) (fileSystemRoot s) (url r))
                   cachedRsp etag version (seen cd s r w)"
  using assms
  by (auto simp: internalCacheFetch_def revalidation_def dir_ready_def seen_def os_MkdirAll_def
      untagged_tagged Let_def
      split: outcome.splits prod.splits option.splits bool.splits)



text \<open>
  Claim C8. The directory step has passed and the cache lookup leads to the transport
  with request \<open>r'\<close>. When \<open>Do\<close> returns an error for it, with or without a
  response, \<open>CacheFetch\<close> returns that response and that error as a miss with
  \<open>NoOpStoreFunc\<close>, the transport having been called once; \<open>CacheFetchAndStore\<close> returns
  the same error; calling the store function changes nothing, and no file has changed.
\<close>

theorem C8_transport_error:
  assumes "dir_ready cd s r w"
      and "revalidation s cd r lastModified w = Some r'"
      and "Do r' (client w) = ((rsp0, Some e), c')"
      and "w' = (seen cd s r w)\<lparr>client := c', sent := sent w @ [r']\<rparr>"
  shows "CacheFetch s cd Do r lastModified w
           = Returns ((rsp0, False, NoOpStoreFunc, Some e), w')
         \<and> CacheFetchAndStore s cd Do r lastModified w = Returns ((rsp0, False, Some e), w')
         \<and> call_StoreFunc cd NoOpStoreFunc w' = (None, w')
         \<and> files w' = files w"
proof -
  from internalCacheFetch_revalidation [OF assms(1,2), of Do]
  obtain cachedRsp etag version where
    r': "r' = tagged r etag"
    and f: "internalCacheFetch s cd Do r lastModified w
              = fetchRemote s cd Do r (fsKey (unicode_LowerCase cd) (fileSystemRoot s) (url r))
                  cachedRsp etag version (seen cd s r w)"
    by blast
  have do: "Do (tagged r etag) (client (seen cd s r w)) = ((rsp0, Some e), c')"
    using assms(3) r' by (simp add: seen_def)
  have sn: "sent (seen cd s r w) = sent w"
    by (simp add: seen_def)
  have a: "CacheFetch s cd Do r lastModified w
             = Returns ((rsp0, False, NoOpStoreFunc, Some e), w')"
    unfolding CacheFetch_def f fetchRemote_answer [where Do = Do, OF do] sn assms(4) r'
    by (cases rsp0) simp_all
  then have "CacheFetchAndStore s cd Do r lastModified w = Returns ((rsp0, False, Some e), w')"
    by (simp add: CacheFetchAndStore_def)
  moreover have "files w' = files w"
    by (simp add: assms(4) seen_def)
  ultimately show ?thesis
    using a by (simp add: call_StoreFunc_def)
qed

theorem C8_transport_error_witness:
  "dir_ready mem_codec test_store example_request (empty_dir 200 [])
   \<and> revalidation test_store mem_codec example_request time_zero (empty_dir 200 [])
       = Some (untagged example_request)
   \<and> (\<exists>rsp0 c'.
         failing_Do (untagged example_request) (client (empty_dir 200 []))
           = ((Some rsp0, Some (Error ''stopped after 10 redirects'')), c')
         \<and> CacheFetch test_store mem_codec failing_Do example_request time_zero (empty_dir 200 [])
           = Returns ((Some rsp0, False, NoOpStoreFunc, Some (Error
               ''stopped after 10 redirects'')),
                      (seen mem_codec test_store example_request (empty_dir 200 []))
                        \<lparr>client := c',
                          sent := sent (empty_dir 200 []) @ [untagged example_request]\<rparr>))"
proof -
  have h1: "dir_ready mem_codec test_store example_request (empty_dir 200 [])"
    by code_simp
  have h2: "revalidation test_store mem_codec example_request time_zero (empty_dir 200 [])
              = Some (untagged example_request)"
    by code_simp
  have "case failing_Do (untagged example_request) (client (empty_dir 200 [])) of
          ((rsp, err), c') \<Rightarrow> rsp \<noteq> None \<and> err = Some (Error ''stopped after 10 redirects'')"
    by code_simp
  then obtain rsp0 c' where
    h3: "failing_Do (untagged example_request) (client (empty_dir 200 []))
           = ((Some rsp0, Some (Error ''stopped after 10 redirects'')), c')"
    by (auto split: prod.splits)
  from C8_transport_error [where Do = failing_Do, OF h1 h2 h3 refl] h1 h2 h3
  show ?thesis by blast
qed

text \<open>
  Claim C9. When the cache file of the URL is absent or cannot be read, \<open>RawCacheData\<close>
  does not return the error: its guard compares the error with itself, so it goes on to
  read from the nil reader and panics.
\<close>

theorem C9_RawCacheData_nil_reader:
  assumes "files w (fsKey (unicode_LowerCase cd) (fileSystemRoot s) u) = None
           \<or> fsKey (unicode_LowerCase cd) (fileSystemRoot s) u \<in> unreadable w"
  shows "RawCacheData s cd u w = Panics"
  using assms by (auto simp: RawCacheData_def readGZIPFile_def os_ReadFile_def Let_def)

theorem C9_RawCacheData_nil_reader_witness:
  "files (empty_dir 200 [])
      (fsKey (unicode_LowerCase mem_codec) (fileSystemRoot test_store) (url example_request)) = None
   \<and> RawCacheData test_store mem_codec (url example_request) (empty_dir 200 []) = Panics"
proof -
  have h: "files (empty_dir 200 [])
      (fsKey (unicode_LowerCase mem_codec) (fileSystemRoot test_store) (url example_request))
             = None"
    by code_simp
  then have "files (empty_dir 200 [])
      (fsKey (unicode_LowerCase mem_codec) (fileSystemRoot test_store) (url example_request))
               = None
             \<or> fsKey (unicode_LowerCase mem_codec) (fileSystemRoot test_store) (url example_request)
                 \<in> unreadable (empty_dir 200 [])" ..
  from C9_RawCacheData_nil_reader [OF this] h
  show ?thesis by simp
qed

text \<open>
  Claim C10. When the directory step has passed, no entry can be decoded at the key, and
  the transport answers the request, sent with an empty \<open>If-None-Match\<close>, with status
  304 and no error, \<open>CacheFetch\<close> returns a nil response as a cache hit, with
  \<open>NoOpStoreFunc\<close> and a nil error.
\<close>

theorem C10_not_modified_without_entry:
  assumes "dir_ready cd s r w"
      and "entry_fails cd w (fsKey (unicode_LowerCase cd) (fileSystemRoot s) (url r)) r e"
      and "Do (untagged r) (client w) = ((Some rsp, None), c')"
      and "StatusCode rsp = 304"
  shows "CacheFetch s cd Do r lastModified w =
           Returns ((None, True, NoOpStoreFunc, None),
                    (seen cd s r w)\<lparr>client := c', sent := sent w @ [untagged r]\<rparr>)"
proof -
  from assms(2)
  have "readAndParseGZIPFile cd w (fsKey (unicode_LowerCase cd) (fileSystemRoot s) (url r)) r
      = Returns (None, Some e)"
    by (simp add: entry_fails_iff)
  with assms(1,3,4) show ?thesis
    by (simp add: CacheFetch_no_entry fetchRemote_def seen_def untagged_def Let_def)
qed

theorem C10_not_modified_without_entry_witness:
  "dir_ready mem_codec test_store example_request (empty_dir 304 [])
   \<and> entry_fails mem_codec (empty_dir 304 [])
       (fsKey (unicode_LowerCase mem_codec) (fileSystemRoot test_store) (url example_request))
           example_request
       (Error ''no such file or directory'')
   \<and> dummy_Do (untagged example_request) (client (empty_dir 304 []))
       = ((Some \<lparr>StatusCode = 304, Header = [], ContentLength = 0, Body = []\<rparr>, None),
          \<lparr>statusCode = 304, body = [], requests = 1\<rparr>)
   \<and> CacheFetch test_store mem_codec dummy_Do example_request time_zero (empty_dir 304 [])
       = Returns ((None, True, NoOpStoreFunc, None),
                  (seen mem_codec test_store example_request (empty_dir 304 []))
                    \<lparr>client := \<lparr>statusCode = 304, body = [], requests = 1\<rparr>,
                     sent := sent (empty_dir 304 []) @ [untagged example_request]\<rparr>)"
proof -
  have h1: "dir_ready mem_codec test_store example_request (empty_dir 304 [])"
    by code_simp
  have h2: "entry_fails mem_codec (empty_dir 304 [])
       (fsKey (unicode_LowerCase mem_codec) (fileSystemRoot test_store) (url example_request))
           example_request
       (Error ''no such file or directory'')"
    by code_simp
  have h3: "dummy_Do (untagged example_request) (client (empty_dir 304 []))
       = ((Some \<lparr>StatusCode = 304, Header = [], ContentLength = 0, Body = []\<rparr>, None),
          \<lparr>statusCode = 304, body = [], requests = 1\<rparr>)"
    by code_simp
  have h4: "StatusCode \<lparr>StatusCode = 304, Header = [], ContentLength = 0, Body = []\<rparr> = 304"
    by simp
  from C10_not_modified_without_entry
         [where Do = dummy_Do and lastModified = time_zero, OF h1 h2 h3 h4] h1 h2 h3
  show ?thesis by simp
qed

subsection \<open>The storage key\<close>

lemma replace_slash: "replace_from ''/'' ''-'' 0 s = hyphenate s"
  by (induction s) (auto simp: hyphenate_def)

lemma ReplaceAll_slash: "strings_ReplaceAll s ''/'' ''-'' = hyphenate s"
  by (simp add: strings_ReplaceAll_def replace_slash)

lemma TrimLeft_slash: "strings_TrimLeft s ''/'' = dropWhile (\<lambda>c. c = CHR ''/'') s"
  by (simp add: strings_TrimLeft_def)

lemma hyphenate_no_slash: "CHR ''/'' \<notin> set (hyphenate s)"
  by (auto simp: hyphenate_def)

lemma Decode_width:
  "s \<noteq> [] \<Longrightarrow> 1 \<le> snd (DecodeRuneInString s) \<and> snd (DecodeRuneInString s) \<le> length s"
  by (auto simp: DecodeRuneInString_def Let_def split: list.splits)

lemma Decode_ascii: "ascii c \<Longrightarrow> DecodeRuneInString (c # t) = (byte c, 1)"
  by (simp add: DecodeRuneInString_def ascii_def)

lemma ascii_not_continuation: "ascii c \<Longrightarrow> 0x80 \<le> lo \<Longrightarrow> \<not> continuation c lo hi"
  by (simp add: ascii_def continuation_def)

lemma Decode_local:
  assumes "s \<noteq> []" and "ascii c"
  shows "DecodeRuneInString (s @ c # t) = DecodeRuneInString s"
proof -
  obtain c0 rest where s: "s = c0 # rest" using assms(1) by (cases s) auto
  have n: "\<And>lo hi. 0x80 \<le> lo \<Longrightarrow> \<not> continuation c lo hi"
    using assms(2) by (simp add: ascii_not_continuation)
  show ?thesis
  proof (cases rest)
    case Nil
    with s n show ?thesis by (simp add: DecodeRuneInString_def Let_def split: list.splits)
  next
    case (Cons c1 r1)
    note r = this
    show ?thesis
    proof (cases r1)
      case Nil
      with s r n show ?thesis by (simp add: DecodeRuneInString_def Let_def split: list.splits)
    next
      case (Cons c2 r2)
      note r' = this
      show ?thesis
      proof (cases r2)
        case Nil
        with s r r' n show ?thesis by (simp add: DecodeRuneInString_def Let_def split: list.splits)
      next
        case (Cons c3 r3)
        with s r r' show ?thesis by (simp add: DecodeRuneInString_def Let_def)
      qed
    qed
  qed
qed

lemma runes_Nil [simp]: "runes [] = []"
  by (simp add: runes.simps)

lemma runes_local:
  "ascii c \<Longrightarrow> runes (s @ c # t) = runes s @ byte c # runes t"
proof (induction s rule: runes.induct)
  case (1 s)
  show ?case
  proof (cases "s = []")
    case True
    with 1(2) show ?thesis
      by (simp add: runes.simps [of "c # t"] Decode_ascii)
  next
    case False
    from Decode_width [OF False]
    have w: "snd (DecodeRuneInString s) \<le> length s" by simp
    have "runes (s @ c # t)
            = fst (DecodeRuneInString s) # runes (drop (snd (DecodeRuneInString s)) s @ c # t)"
      using False w 1(2) by (simp add: runes.simps [of "s @ c # t"] Decode_local)
    also have "\<dots> = fst (DecodeRuneInString s)
                      # (runes (drop (snd (DecodeRuneInString s)) s) @ byte c # runes t)"
      using 1(1) [OF False 1(2)] by simp
    also have "\<dots> = runes s @ byte c # runes t"
      using False by (simp add: runes.simps [of s])
    finally show ?thesis .
  qed
qed

lemma byte_range: "0 \<le> byte c \<and> byte c < 256"
proof -
  have "byte c mod 256 = byte c" by (simp add: byte_def of_char_mod_256)
  moreover have "0 \<le> byte c mod 256 \<and> byte c mod 256 < 256" by simp
  ultimately show ?thesis by simp
qed

lemma Encode_lower_plain:
  "ascii c \<Longrightarrow> \<not> capital c \<Longrightarrow>
   \<not> unicode_ToLower lc (byte c) < 0 \<and> EncodeRune (unicode_ToLower lc (byte c)) = [c]"
  using byte_range [of c]
  by (auto simp: ascii_def capital_def EncodeRune_def unicode_ToLower_def byte_def)

lemma ToLower_local:
  assumes "ascii c" and "\<not> capital c"
  shows "strings_ToLower lc (s @ c # t) = strings_ToLower lc s @ c # strings_ToLower lc t"
  using assms by (simp add: strings_ToLower_def strings_Map_def runes_local Encode_lower_plain)

lemma ToLower_Nil [simp]: "strings_ToLower lc [] = []"
  by (simp add: strings_ToLower_def strings_Map_def)

lemma char_of_slash: "char_of (v :: int) = CHR ''/'' \<Longrightarrow> v mod 256 = 0x2F"
proof -
  assume "char_of v = CHR ''/''"
  then have "(of_char (char_of v) :: int) = of_char (CHR ''/'')" by simp
  then show ?thesis by (simp add: of_char_of)
qed

lemma high_byte_not_slash: "128 \<le> v \<Longrightarrow> v < 256 \<Longrightarrow> char_of (v :: int) \<noteq> CHR ''/''"
  using char_of_slash [of v] by auto



lemma div_bounds:
  fixes v :: int
  assumes "0 < k" and "lo \<le> v" and "v \<le> hi"
  shows "lo div k \<le> v div k \<and> v div k \<le> hi div k"
  using assms zdiv_mono1 [of lo v k] zdiv_mono1 [of v hi k] by simp

lemma Encode_no_slash:
  assumes "v \<noteq> 0x2F"
  shows "CHR ''/'' \<notin> set (EncodeRune v)"
proof -
  have a: "0 \<le> v \<Longrightarrow> v < 128 \<Longrightarrow> char_of v \<noteq> CHR ''/''"
    using char_of_slash [of v] assms by auto
  have b: "128 \<le> v \<Longrightarrow> v < 2048 \<Longrightarrow> char_of (192 + v div 64) \<noteq> CHR ''/''"
    using div_bounds [of 64 128 v 2047] by (intro high_byte_not_slash) simp_all
  have c: "\<And>k. char_of (128 + k mod 64 :: int) \<noteq> CHR ''/''"
  proof -
    fix k :: int
    have "0 \<le> k mod 64 \<and> k mod 64 < 64" by simp
    then show "char_of (128 + k mod 64 :: int) \<noteq> CHR ''/''"
      by (intro high_byte_not_slash) simp_all
  qed
  have d: "2048 \<le> v \<Longrightarrow> v < 65536 \<Longrightarrow> char_of (224 + v div 4096) \<noteq> CHR ''/''"
    using div_bounds [of 4096 2048 v 65535] by (intro high_byte_not_slash) simp_all
  have e: "65536 \<le> v \<Longrightarrow> v \<le> 1114111 \<Longrightarrow> char_of (240 + v div 262144) \<noteq> CHR ''/''"
    using div_bounds [of 262144 65536 v 1114111] by (intro high_byte_not_slash) simp_all
  have f: "char_of (239 :: int) \<noteq> CHR ''/''" "char_of (191 :: int) \<noteq> CHR ''/''"
          "char_of (189 :: int) \<noteq> CHR ''/''"
    by (rule high_byte_not_slash; simp)+
  show ?thesis
    unfolding EncodeRune_def
    using a [THEN not_sym] b [THEN not_sym] c [THEN not_sym] d [THEN not_sym]
      e [THEN not_sym] f [THEN not_sym]
    by simp
qed


lemma Decode_rune:
  assumes "s \<noteq> []"
  shows "fst (DecodeRuneInString s) = byte (hd s) \<and> ascii (hd s)
         \<or> 0x80 \<le> fst (DecodeRuneInString s)"
  using assms
  by (auto simp: DecodeRuneInString_def Let_def continuation_def ascii_def RuneError_def
      split: list.splits)

lemma runes_elem:
  "r \<in> set (runes s) \<Longrightarrow> (\<exists>c \<in> set s. r = byte c \<and> ascii c) \<or> 0x80 \<le> r"
proof (induction s rule: runes.induct)
  case (1 s)
  show ?case
  proof (cases "s = []")
    case True
    with 1(2) show ?thesis by simp
  next
    case False
    from 1(2) False
    have "r = fst (DecodeRuneInString s) \<or> r \<in> set (runes (drop (snd (DecodeRuneInString s)) s))"
      by (simp add: runes.simps [of s])
    then show ?thesis
    proof
      assume "r = fst (DecodeRuneInString s)"
      with Decode_rune [OF False] False show ?thesis by (cases s) auto
    next
      assume "r \<in> set (runes (drop (snd (DecodeRuneInString s)) s))"
      from 1(1) [OF False this] show ?thesis by (auto dest: in_set_dropD)
    qed
  qed
qed

lemma byte_slash: "byte c = 0x2F \<Longrightarrow> c = CHR ''/''"
proof -
  assume "byte c = 0x2F"
  then have "(of_char c :: int) = of_char (CHR ''/'')" by (simp add: byte_def)
  then show ?thesis by (simp only: of_char_eq_iff)
qed

lemma ToLower_no_slash:
  assumes "CHR ''/'' \<notin> set s" and "slash_free lc"
  shows "CHR ''/'' \<notin> set (strings_ToLower lc s)"
proof -
  have "CHR ''/'' \<notin> set (EncodeRune (unicode_ToLower lc r))" if "r \<in> set (runes s)" for r
  proof (rule Encode_no_slash)
    from runes_elem [OF that]
    show "unicode_ToLower lc r \<noteq> 0x2F"
    proof
      assume "\<exists>c \<in> set s. r = byte c \<and> ascii c"
      then obtain c where c: "c \<in> set s" "r = byte c" "ascii c" by auto
      with assms(1) have "byte c \<noteq> 0x2F" using byte_slash by auto
      with c show ?thesis by (auto simp: unicode_ToLower_def ascii_def)
    next
      assume "0x80 \<le> r"
      with assms(2) show ?thesis by (simp add: unicode_ToLower_def slash_free_def)
    qed
  qed
  then show ?thesis by (auto simp: strings_ToLower_def strings_Map_def)
qed

lemma ToLower_key:
  "strings_ToLower lc (a @ ''?'' @ b @ ''.gz'')
     = strings_ToLower lc a @ ''?'' @ strings_ToLower lc b @ ''.gz''"
proof -
  have p: "ascii (CHR ''?'') \<and> \<not> capital (CHR ''?'')" "ascii (CHR ''.'') \<and> \<not> capital (CHR ''.'')"
     "ascii (CHR ''g'') \<and> \<not> capital (CHR ''g'')" "ascii (CHR ''z'') \<and> \<not> capital (CHR ''z'')"
    by (simp_all add: ascii_def capital_def byte_def)
  have z: "strings_ToLower lc ''z'' = ''z''"
    using ToLower_local [of "CHR ''z''" lc "[]" "[]"] p by simp
  have g: "strings_ToLower lc ''gz'' = ''gz''"
    using ToLower_local [of "CHR ''g''" lc "[]" "''z''"] p z by simp
  have d: "strings_ToLower lc (b @ ''.gz'') = strings_ToLower lc b @ ''.gz''"
    using ToLower_local [of "CHR ''.''" lc b "''gz''"] p g by simp
  show ?thesis
    using ToLower_local [of "CHR ''?''" lc a "b @ ''.gz''"] p d by simp
qed

lemma split_on_not_Nil [simp]: "split_on sep s \<noteq> []"
  by (induction s) (auto split: list.splits)

lemma split_on_append: "split_on sep (b @ sep # t) = split_on sep b @ split_on sep t"
  by (induction b) (auto split: list.splits)

lemma split_on_single: "sep \<notin> set s \<Longrightarrow> split_on sep s = [s]"
  by (induction s) auto

lemma strings_Join_snoc:
  "strings_Join (ys @ [x]) sep = (if ys = [] then x else strings_Join ys sep @ sep @ x)"
  by (induction ys sep rule: strings_Join.induct) auto


lemma clean_step_proper:
  "proper_element e \<Longrightarrow> clean_step rooted st e = e # st"
  by (auto simp: clean_step_def proper_element_def)

lemma Clean_ends:
  assumes "proper_element e" and "a = [] \<or> (\<exists>b. a = b @ ''/'')"
  shows "\<exists>c. filepath_Clean (a @ e) = c @ e \<and> (c = [] \<or> (\<exists>d. c = d @ ''/''))"
proof -
  from assms(1) have ne: "e \<noteq> []" and ns: "CHR ''/'' \<notin> set e"
    by (auto simp: proper_element_def)
  have sp: "\<exists>xs. split_on (CHR ''/'') (a @ e) = xs @ [e]"
  proof (cases "a = []")
    case True
    with ns show ?thesis by (simp add: split_on_single)
  next
    case False
    with assms(2) obtain b where "a = b @ ''/''" by blast
    then have "split_on (CHR ''/'') (a @ e) = split_on (CHR ''/'') b @ [e]"
      using ns by (simp add: split_on_append split_on_single)
    then show ?thesis by blast
  qed
  then obtain xs where xs: "split_on (CHR ''/'') (a @ e) = xs @ [e]" ..
  define rooted where "rooted = (hd (a @ e) = CHR ''/'')"
  define st where "st = foldl (clean_step rooted) [] xs"
  have f: "foldl (clean_step rooted) [] (split_on (CHR ''/'') (a @ e)) = e # st"
    using assms(1) by (simp add: xs st_def clean_step_proper)
  define c0 where "c0 = (if rev st = [] then [] else strings_Join (rev st) ''/'' @ ''/'')"
  define c where "c = (if rooted then ''/'' else []) @ c0"
  have j: "strings_Join (rev (e # st)) ''/'' = c0 @ e"
    by (simp add: c0_def strings_Join_snoc)
  have "a @ e \<noteq> []" using ne by simp
  then have "filepath_Clean (a @ e) =
      (if (if rooted then ''/'' else []) @ c0 @ e = [] then ''.''
       else (if rooted then ''/'' else []) @ c0 @ e)"
    unfolding filepath_Clean_def Let_def rooted_def [symmetric] f j by simp
  then have "filepath_Clean (a @ e) = c @ e"
    using ne by (simp add: c_def)
  moreover have "c = [] \<or> (\<exists>d. c = d @ ''/'')"
    by (cases rooted; cases "rev st = []") (simp_all add: c_def c0_def)
  ultimately show ?thesis by blast
qed

lemma last_element_ends:
  assumes "CHR ''/'' \<notin> set e" and "c = [] \<or> (\<exists>d. c = d @ ''/'')"
  shows "last_element (c @ e) = e"
  using assms by (auto simp: last_element_def split_on_single split_on_append)

lemma Join_three:
  assumes "e \<noteq> []"
  shows "\<exists>a. filepath_Join [root, h, e] = filepath_Clean (a @ e) \<and> (a = [] \<or> (\<exists>b. a = b @ ''/''))"
proof (cases "root = []")
  case True
  show ?thesis
  proof (cases "h = []")
    case True
    with \<open>root = []\<close> assms have "filepath_Join [root, h, e] = filepath_Clean ([] @ e)"
      by (simp add: filepath_Join_def)
    then show ?thesis by blast
  next
    case False
    with \<open>root = []\<close> have "filepath_Join [root, h, e] = filepath_Clean ((h @ ''/'') @ e)"
      by (simp add: filepath_Join_def)
    then show ?thesis by blast
  qed
next
  case False
  then have "filepath_Join [root, h, e] = filepath_Clean ((root @ ''/'' @ h @ ''/'') @ e)"
    by (simp add: filepath_Join_def)
  moreover have "\<exists>b. root @ ''/'' @ h @ ''/'' = b @ ''/''"
    by (rule exI [of _ "root @ ''/'' @ h"]) simp
  ultimately show ?thesis by blast
qed

lemma last_element_Join:
  assumes "proper_element e"
  shows "last_element (filepath_Join [root, h, e]) = e"
proof -
  from assms have ne: "e \<noteq> []" and ns: "CHR ''/'' \<notin> set e"
    by (auto simp: proper_element_def)
  from Join_three [OF ne] obtain a where
    a: "filepath_Join [root, h, e] = filepath_Clean (a @ e)" "a = [] \<or> (\<exists>b. a = b @ ''/'')"
    by blast
  from Clean_ends [OF assms a(2)] obtain c where
    c: "filepath_Clean (a @ e) = c @ e" "c = [] \<or> (\<exists>d. c = d @ ''/'')"
    by blast
  show ?thesis
    unfolding a(1) c(1) by (rule last_element_ends [OF ns c(2)])
qed


lemma fsKey_element: "fsKey lc root u = filepath_Join [root, Host u, key_element lc u]"
  by (simp add: fsKey_def key_element_def ReplaceAll_slash TrimLeft_slash)

lemma key_element_split:
  "key_element lc u =
     strings_ToLower lc (hyphenate (dropWhile (\<lambda>c. c = CHR ''/'') (Path u))) @ ''?''
       @ strings_ToLower lc (hyphenate (RawQuery u)) @ ''.gz''"
  unfolding key_element_def by (rule ToLower_key)

lemma key_element_proper:
  assumes "slash_free lc"
  shows "proper_element (key_element lc u)"
proof -
  have "CHR ''/'' \<notin> set (hyphenate (dropWhile (\<lambda>c. c = CHR ''/'') (Path u)) @ ''?''
                      @ hyphenate (RawQuery u) @ ''.gz'')"
    using hyphenate_no_slash by simp
  then have "CHR ''/'' \<notin> set (key_element lc u)"
    unfolding key_element_def using assms by (rule ToLower_no_slash)
  moreover have "3 \<le> length (key_element lc u)"
    by (simp add: key_element_split)
  ultimately show ?thesis by (simp add: proper_element_def)
qed

lemma fsKey_last_element:
  "slash_free lc \<Longrightarrow> last_element (fsKey lc root u) = key_element lc u"
  unfolding fsKey_element by (rule last_element_Join [OF key_element_proper])

text \<open>
  Claim C5, as amended. The key is the join of the root, the host and one element: the
  path without any of its leading separators and with every other separator replaced by a
  hyphen, a question mark, the raw query with every separator replaced by a hyphen, and
  \<open>.gz\<close>, this element lower-cased.
\<close>

theorem C5_key_shape:
  "fsKey lc root u =
     filepath_Join
       [root, Host u,
        strings_ToLower lc (hyphenate (dropWhile (\<lambda>c. c = CHR ''/'') (Path u)) @ ''?''
                         @ hyphenate (RawQuery u) @ ''.gz'')]"
  by (simp add: fsKey_def ReplaceAll_slash TrimLeft_slash)

text \<open>
  Claim C5 as stated fails on a path with two leading separators: the code strips both,
  and stripping the leading separator alone leaves a hyphen at the start of the element.
\<close>

theorem C5_counterexample:
  "fsKey latin1_LowerCase ''/tmp/t'' \<lparr>Host = ''example.com'', Path = ''//a'', RawQuery = []\<rparr>
     = ''/tmp/t/example.com/a?.gz''
   \<and> claimed_key latin1_LowerCase ''/tmp/t'' \<lparr>Host = ''example.com'', Path = ''//a'', RawQuery = []\<rparr>
     = ''/tmp/t/example.com/-a?.gz''
   \<and> fsKey latin1_LowerCase ''/tmp/t'' \<lparr>Host = ''example.com'', Path = ''//a'', RawQuery = []\<rparr>
     \<noteq> claimed_key latin1_LowerCase ''/tmp/t'' \<lparr>Host = ''example.com'', Path = ''//a'', RawQuery
         = []\<rparr>"
  by code_simp

text \<open>
  Claim C4, as amended. The key is a function of root, host, path and query. The
  lower-casing is that of \<open>strings.ToLower\<close>: every letter, ASCII or not, goes to its
  lower case as the tables of the library have it, and every byte that is not valid UTF-8
  becomes \<open>RuneError\<close>. Given that the tables send no rune past ASCII to the separator,
  for a fixed root, host and path two queries have the same key exactly when they are
  equal once every separator is replaced by a hyphen and the result is lower-cased.
\<close>

theorem C4_key_of_query:
  assumes "slash_free lc"
  shows "fsKey lc root \<lparr>Host = h, Path = p, RawQuery = q1\<rparr>
           = fsKey lc root \<lparr>Host = h, Path = p, RawQuery = q2\<rparr>
         \<longleftrightarrow> strings_ToLower lc (strings_ReplaceAll q1 ''/'' ''-'')
             = strings_ToLower lc (strings_ReplaceAll q2 ''/'' ''-'')"
proof
  assume "fsKey lc root \<lparr>Host = h, Path = p, RawQuery = q1\<rparr>
            = fsKey lc root \<lparr>Host = h, Path = p, RawQuery = q2\<rparr>"
  then have "last_element (fsKey lc root \<lparr>Host = h, Path = p, RawQuery = q1\<rparr>)
               = last_element (fsKey lc root \<lparr>Host = h, Path = p, RawQuery = q2\<rparr>)"
    by simp
  then have "key_element lc \<lparr>Host = h, Path = p, RawQuery = q1\<rparr>
               = key_element lc \<lparr>Host = h, Path = p, RawQuery = q2\<rparr>"
    by (simp only: fsKey_last_element [OF assms])
  then show "strings_ToLower lc (strings_ReplaceAll q1 ''/'' ''-'')
       = strings_ToLower lc (strings_ReplaceAll q2 ''/'' ''-'')"
    by (simp add: key_element_split ReplaceAll_slash)
next
  assume "strings_ToLower lc (strings_ReplaceAll q1 ''/'' ''-'')
       = strings_ToLower lc (strings_ReplaceAll q2 ''/'' ''-'')"
  then have "key_element lc \<lparr>Host = h, Path = p, RawQuery = q1\<rparr>
               = key_element lc \<lparr>Host = h, Path = p, RawQuery = q2\<rparr>"
    by (simp add: key_element_split ReplaceAll_slash)
  then show "fsKey lc root \<lparr>Host = h, Path = p, RawQuery = q1\<rparr>
            = fsKey lc root \<lparr>Host = h, Path = p, RawQuery = q2\<rparr>"
    by (simp add: fsKey_element)
qed

text \<open>
  With the Latin-1 part of the tables, the queries \<open>q=\<close>\<open>U+00C9\<close> and
  \<open>q=\<close>\<open>U+00E9\<close>, a capital and a small e with an acute accent in UTF-8, have the same
  key.
\<close>

theorem C4_key_of_query_witness:
  "slash_free latin1_LowerCase
   \<and> fsKey latin1_LowerCase ''/tmp/t''
       \<lparr>Host = ''example.com'', Path = ''/search'', RawQuery = ''q='' @ EncodeRune 0xC9\<rparr>
     = fsKey latin1_LowerCase ''/tmp/t''
         \<lparr>Host = ''example.com'', Path = ''/search'', RawQuery = ''q='' @ EncodeRune 0xE9\<rparr>
   \<and> EncodeRune 0xC9 \<noteq> EncodeRune 0xE9"
proof -
  have sf: "slash_free latin1_LowerCase"
    by (simp add: slash_free_def latin1_LowerCase_def)
  have "strings_ToLower latin1_LowerCase (strings_ReplaceAll (''q='' @ EncodeRune 0xC9) ''/'' ''-'')
          = strings_ToLower latin1_LowerCase
              (strings_ReplaceAll (''q='' @ EncodeRune 0xE9) ''/'' ''-'')"
    by code_simp
  with C4_key_of_query [OF sf, of "''/tmp/t''" "''example.com''" "''/search''"
         "''q='' @ EncodeRune 0xC9" "''q='' @ EncodeRune 0xE9"]
  have "fsKey latin1_LowerCase ''/tmp/t''
       \<lparr>Host = ''example.com'', Path = ''/search'', RawQuery = ''q='' @ EncodeRune 0xC9\<rparr>
     = fsKey latin1_LowerCase ''/tmp/t''
         \<lparr>Host = ''example.com'', Path = ''/search'', RawQuery = ''q='' @ EncodeRune 0xE9\<rparr>"
    by simp
  moreover have "EncodeRune 0xC9 \<noteq> EncodeRune 0xE9"
    by code_simp
  ultimately show ?thesis using sf by simp
qed

text \<open>
  Claim C4 as stated fails: two queries that differ in the case of a letter and in a
  separator against a hyphen have the same key.
\<close>

theorem C4_counterexample:
  "fsKey latin1_LowerCase ''/tmp/t'' \<lparr>Host = ''example.com'', Path = ''/search'', RawQuery
      = ''q=A/b''\<rparr>
     = fsKey latin1_LowerCase ''/tmp/t'' \<lparr>Host = ''example.com'', Path = ''/search'', RawQuery
         = ''q=a-b''\<rparr>
   \<and> ''q=A/b'' \<noteq> ''q=a-b''"
  by code_simp

subsection \<open>The version counter\<close>

lemma Header_Get_Set: "Header_Get (Header_Set h k v) k = v"
  by (simp add: Header_Get_def Header_Set_def update_conv')

lemma Header_Get_Set_other:
  "CanonicalMIMEHeaderKey k' \<noteq> CanonicalMIMEHeaderKey k \<Longrightarrow>
   Header_Get (Header_Set h k v) k' = Header_Get h k'"
  by (simp add: Header_Get_def Header_Set_def update_conv')








subsection \<open>Printing and parsing the metadata\<close>

lemma digit_of_digit: "0 \<le> d \<Longrightarrow> d < 10 \<Longrightarrow> is_digit (digit_of d) \<and> digit_val (digit_of d) = d"
  by (simp add: is_digit_def digit_val_def digit_of_def)

lemma parse_digits_snoc:
  "parse_digits acc (xs @ [c]) =
     (case parse_digits acc xs of
        None \<Rightarrow> None
      | Some a \<Rightarrow> if is_digit c then Some (a * 10 + digit_val c) else None)"
  by (induction xs arbitrary: acc) auto

lemma parse_digits_of: "0 \<le> n \<Longrightarrow> parse_digits 0 (digits_of n) = Some n"
proof (induction n rule: digits_of.induct)
  case (1 n)
  show ?case
  proof (cases "n < 10")
    case True
    with 1(2) show ?thesis
      by (simp add: digits_of.simps [of n] digit_of_digit)
  next
    case False
    with 1 have ih: "parse_digits 0 (digits_of (n div 10)) = Some (n div 10)"
      by simp
    have "is_digit (digit_of (n mod 10)) \<and> digit_val (digit_of (n mod 10)) = n mod 10"
      by (rule digit_of_digit) simp_all
    with False ih show ?thesis
      by (simp add: digits_of.simps [of n] parse_digits_snoc)
  qed
qed

lemma digits_of_hd: "0 \<le> n \<Longrightarrow> \<exists>c cs. digits_of n = c # cs \<and> is_digit c"
proof (induction n rule: digits_of.induct)
  case (1 n)
  show ?case
  proof (cases "n < 10")
    case True
    with 1(2) show ?thesis
      by (simp add: digits_of.simps [of n] digit_of_digit)
  next
    case False
    with 1 obtain c cs where "digits_of (n div 10) = c # cs \<and> is_digit c"
      by fastforce
    with False show ?thesis
      by (simp add: digits_of.simps [of n])
  qed
qed

lemma is_digit_not_sign: "is_digit c \<Longrightarrow> c \<noteq> CHR ''+'' \<and> c \<noteq> CHR ''-''"
  by (auto simp: is_digit_def)

lemma ParseInt_Sprintf_d:
  assumes "in_int64 n"
  shows "ParseInt (Sprintf_d n) = Inr n"
proof (cases "n < 0")
  case True
  then have p: "parse_digits 0 (digits_of (- n)) = Some (- n)"
    by (simp add: parse_digits_of)
  from True obtain c cs where "digits_of (- n) = c # cs"
    using digits_of_hd [of "- n"] by auto
  with True p assms show ?thesis
    by (simp add: ParseInt_def Sprintf_d_def in_int64_def)
next
  case False
  then have p: "parse_digits 0 (digits_of n) = Some n"
    by (simp add: parse_digits_of)
  from False obtain c cs where c: "digits_of n = c # cs" "is_digit c"
    using digits_of_hd [of n] by auto
  with False p assms is_digit_not_sign [OF c(2)] show ?thesis
    by (simp add: ParseInt_def Sprintf_d_def in_int64_def)
qed

lemma Sprintf_d_not_Nil: "Sprintf_d n \<noteq> []"
  using digits_of_hd [of n] digits_of_hd [of "- n"]
  by (cases "n < 0") (auto simp: Sprintf_d_def)

lemma wrap64_id: "in_int64 x \<Longrightarrow> wrap64 x = x"
  by (simp add: in_int64_def wrap64_def)

subsection \<open>A fetch that misses and is committed\<close>

lemma prepareForWriting_stamp:
  "prepareForWriting s cd key version rsp w =
     (case httputil_DumpResponse cd (stamp s (now w) version rsp) of
        Inl err \<Rightarrow> Inl (Errorf ''failed to dump response'' err)
      | Inr dump \<Rightarrow> Inr (WriteStoreFunc key dump, stamp s (now w) version rsp))"
  by (simp add: prepareForWriting_def stamp_def Let_def split: sum.splits)

lemma fetchRemote_store:
  assumes "Do (tagged r etag) (client w) = ((Some rsp0, None), c')"
      and "StatusCode rsp0 \<noteq> 304"
      and "httputil_DumpResponse cd (stamp s (now w) (wrap64 (v + 1)) rsp0) = Inr d"
  shows "fetchRemote s cd Do r key cachedRsp etag v w =
           Returns ((Some (stamp s (now w) (wrap64 (v + 1)) rsp0), False, WriteStoreFunc key d,
               None),
                    w\<lparr>client := c', sent := sent w @ [tagged r etag]\<rparr>)"
  using assms by (simp add: fetchRemote_def tagged_def prepareForWriting_stamp Let_def)

lemma internalCacheFetch_entry:
  assumes "dir_ready cd s r w"
      and "readAndParseGZIPFile cd w (fsKey (unicode_LowerCase cd) (fileSystemRoot s) (url r)) r
          = Returns (Some c, None)"
  shows "internalCacheFetch s cd Do r lastModified w =
           (case shouldUseCachedValue s c lastModified of
              (storedVersion, True) \<Rightarrow> Returns ((Some c, True, NoOpStoreFunc, None), seen cd s r w)
            | (storedVersion, False) \<Rightarrow>
                fetchRemote s cd Do r
                    (fsKey (unicode_LowerCase cd) (fileSystemRoot s) (url r)) (Some c)
                  (Header_Get (Header c) etagKey) storedVersion (seen cd s r w))"
  using assms by (auto simp: internalCacheFetch_def dir_ready_def seen_def os_MkdirAll_def Let_def)

lemma CacheFetchAndStore_commit:
  assumes "internalCacheFetch s cd Do r lastModified w
             = Returns ((rsp, cached, WriteStoreFunc key d, None), w1)"
      and "gzip_Write cd d = Inr z" and "key \<notin> unwritable w1"
  shows "CacheFetchAndStore s cd Do r lastModified w
           = Returns ((rsp, cached, None), w1\<lparr>files := (files w1)(key \<mapsto> z)\<rparr>)"
  using assms by (simp add: CacheFetchAndStore_def CacheFetch_def call_StoreFunc_def
      os_WriteFile_def)

lemma CacheFetchAndStore_hit:
  assumes "internalCacheFetch s cd Do r lastModified w
             = Returns ((rsp, cached, NoOpStoreFunc, None), w1)"
  shows "CacheFetchAndStore s cd Do r lastModified w = Returns ((rsp, cached, None), w1)"
  using assms by (simp add: CacheFetchAndStore_def CacheFetch_def call_StoreFunc_def)

lemma readAndParseGZIPFile_file:
  assumes "key \<notin> unreadable w" and "files w key = Some z"
      and "gzip_NewReader cd z = Inr g" and "http_ReadResponse cd g r = Inr c"
  shows "readAndParseGZIPFile cd w key r = Returns (Some c, None)"
  using assms by (simp add: readAndParseGZIPFile_def readGZIPFile_def os_ReadFile_def)

lemma keepsE:
  assumes "keeps cd s r rsp"
  obtains d z g c where "httputil_DumpResponse cd rsp = Inr d" and "gzip_Write cd d = Inr z"
    and "gzip_NewReader cd z = Inr g" and "http_ReadResponse cd g r = Inr c"
    and "StatusCode c = StatusCode rsp"
    and "Header_Get (Header c) (fetchTimestampKey s)
        = Header_Get (Header rsp) (fetchTimestampKey s)"
    and "Header_Get (Header c) (fetchVersionKey s) = Header_Get (Header rsp) (fetchVersionKey s)"
    and "Body c = Body rsp"
    and "ContentLength c = - 1 \<or> 10 \<le> ContentLength c"
  using assms by (auto simp: keeps_def split: sum.splits)

lemma stamp_fields:
  "StatusCode (stamp s t v rsp) = StatusCode rsp"
  "Body (stamp s t v rsp) = Body rsp"
  "Header_Get (Header (stamp s t v rsp)) (fetchVersionKey s) = Sprintf_d v"
  by (simp_all add: stamp_def Header_Get_Set)

lemma readAndParseGZIPFile_now [simp]:
  "readAndParseGZIPFile cd (w\<lparr>now := t\<rparr>) key r = readAndParseGZIPFile cd w key r"
  by (simp add: readAndParseGZIPFile_def readGZIPFile_def os_ReadFile_def)

lemma dir_ready_now [simp]: "dir_ready cd s r (w\<lparr>now := t\<rparr>) = dir_ready cd s r w"
  by (simp add: dir_ready_def)

lemma usable_now [simp]: "usable cd s r (w\<lparr>now := t\<rparr>) = usable cd s r w"
  by (simp add: usable_def)

lemma seen_absorb:
  "filepath_Dir (fsKey (unicode_LowerCase cd) (fileSystemRoot s) (url r)) \<in> seenHosts w \<Longrightarrow> seen cd s
      r w = w"
  by (simp add: seen_def insert_absorb)

lemma miss_step:
  assumes u: "usable cd s r w"
      and look: "internalCacheFetch s cd Do r lm w
                   = fetchRemote s cd Do r
                       (fsKey (unicode_LowerCase cd) (fileSystemRoot s) (url r)) cachedRsp etag v
                       (seen cd s r w)"
      and do: "Do (tagged r etag) (client w) = ((Some rsp0, None), c')"
      and st: "StatusCode rsp0 \<noteq> 304"
      and k: "keeps cd s r (stamp s (now w) (wrap64 (v + 1)) rsp0)"
  shows "\<exists>w' c.
           CacheFetchAndStore s cd Do r lm w
             = Returns ((Some (stamp s (now w) (wrap64 (v + 1)) rsp0), False, None), w')
           \<and> readAndParseGZIPFile cd w' (fsKey (unicode_LowerCase cd) (fileSystemRoot s) (url r)) r
               = Returns (Some c, None)
           \<and> StatusCode c = StatusCode rsp0
           \<and> Header_Get (Header c) (fetchTimestampKey s)
               = Header_Get (Header (stamp s (now w) (wrap64 (v + 1)) rsp0)) (fetchTimestampKey s)
           \<and> Header_Get (Header c) (fetchVersionKey s) = Sprintf_d (wrap64 (v + 1))
           \<and> Body c = Body rsp0
           \<and> (ContentLength c = - 1 \<or> 10 \<le> ContentLength c)
           \<and> client w' = c' \<and> sent w' = sent w @ [tagged r etag]
           \<and> usable cd s r w'
           \<and> filepath_Dir (fsKey (unicode_LowerCase cd) (fileSystemRoot s) (url r)) \<in> seenHosts w'"
proof -
  let ?key = "fsKey (unicode_LowerCase cd) (fileSystemRoot s) (url r)"
  let ?rsp = "stamp s (now w) (wrap64 (v + 1)) rsp0"
  from k obtain d z g c where
    d: "httputil_DumpResponse cd ?rsp = Inr d" and z: "gzip_Write cd d = Inr z"
    and g: "gzip_NewReader cd z = Inr g" and c: "http_ReadResponse cd g r = Inr c"
    and f: "StatusCode c = StatusCode ?rsp"
      "Header_Get (Header c) (fetchTimestampKey s) = Header_Get (Header ?rsp) (fetchTimestampKey s)"
      "Header_Get (Header c) (fetchVersionKey s) = Header_Get (Header ?rsp) (fetchVersionKey s)"
      "Body c = Body ?rsp"
      "ContentLength c = - 1 \<or> 10 \<le> ContentLength c"
    by (rule keepsE)
  let ?w1 = "(seen cd s r w)\<lparr>client := c', sent := sent (seen cd s r w) @ [tagged r etag]\<rparr>"
  let ?w' = "?w1\<lparr>files := (files ?w1)(?key \<mapsto> z)\<rparr>"
  have do': "Do (tagged r etag) (client (seen cd s r w)) = ((Some rsp0, None), c')"
    using do by (simp add: seen_def)
  have d': "httputil_DumpResponse cd (stamp s (now (seen cd s r w)) (wrap64 (v + 1)) rsp0) = Inr d"
    using d by (simp add: seen_def)
  have fr: "internalCacheFetch s cd Do r lm w
              = Returns ((Some ?rsp, False, WriteStoreFunc ?key d, None), ?w1)"
    unfolding look
    using fetchRemote_store [where Do = Do and w = "seen cd s r w" and key = ?key
                               and cachedRsp = cachedRsp, OF do' st d']
    by (simp add: seen_def)
  have nw: "?key \<notin> unwritable ?w1" and nr: "?key \<notin> unreadable ?w'"
    using u by (simp_all add: usable_def seen_def)
  have a: "CacheFetchAndStore s cd Do r lm w = Returns ((Some ?rsp, False, None), ?w')"
    by (rule CacheFetchAndStore_commit [OF fr z nw])
  have b: "readAndParseGZIPFile cd ?w' ?key r = Returns (Some c, None)"
    by (rule readAndParseGZIPFile_file [OF nr _ g c]) simp
  have e: "usable cd s r ?w'"
    using u by (simp add: usable_def dir_ready_def seen_def)
  have h: "filepath_Dir ?key \<in> seenHosts ?w'"
    by (simp add: seen_def)
  have "client ?w' = c'" and "sent ?w' = sent w @ [tagged r etag]"
    by (simp_all add: seen_def)
  with a b e h f show ?thesis
    by (auto simp: stamp_fields)
qed

lemma shouldUseCachedValue_stamped:
  assumes "ContentLength c = - 1 \<or> 10 \<le> ContentLength c"
      and "Header_Get (Header c) (fetchTimestampKey s) = Sprintf_d ts" and "in_int64 ts"
      and "Header_Get (Header c) (fetchVersionKey s) = Sprintf_d v" and "in_int64 v"
  shows "shouldUseCachedValue s c lm =
           (if retryStatus (StatusCode c) \<and> v \<le> maxErrorVersion s then (v, False)
            else if After (time_Unix ts) lm then (v, True) else (0, False))"
  using assms
  by (auto simp: shouldUseCachedValue_def getWriteTimestamp_def getVersion_def Atoi_def
      ParseInt_Sprintf_d Sprintf_d_not_Nil minimumContentLength_def)

lemma fetchRemote_miss_store:
  assumes "fetchRemote s cd Do r key cachedRsp etag v w = Returns ((Some rsp, False, sf, None), w')"
  shows "\<exists>rsp0 d. rsp = stamp s (now w) (wrap64 (v + 1)) rsp0
           \<and> httputil_DumpResponse cd rsp = Inr d \<and> sf = WriteStoreFunc key d
           \<and> seenHosts w' = seenHosts w \<and> unreadable w' = unreadable w"
  using assms
  by (auto simp: fetchRemote_def prepareForWriting_stamp Let_def
      split: prod.splits option.splits if_splits sum.splits)

lemma call_StoreFunc_write:
  assumes "call_StoreFunc cd (WriteStoreFunc key d) w = (None, w')"
  shows "\<exists>z. gzip_Write cd d = Inr z \<and> w' = w\<lparr>files := (files w)(key \<mapsto> z)\<rparr>"
  using assms
  by (auto simp: call_StoreFunc_def os_WriteFile_def split: sum.splits if_splits)

lemma CacheFetchAndStore_miss_file:
  assumes "CacheFetchAndStore s cd Do r lm w = Returns ((Some rsp, False, None), w')"
  shows "\<exists>rsp0 v d z. rsp = stamp s (now w) (wrap64 (v + 1)) rsp0
           \<and> httputil_DumpResponse cd rsp = Inr d \<and> gzip_Write cd d = Inr z
           \<and> files w' (fsKey (unicode_LowerCase cd) (fileSystemRoot s) (url r)) = Some z
           \<and> unreadable w' = unreadable w
           \<and> filepath_Dir (fsKey (unicode_LowerCase cd) (fileSystemRoot s) (url r)) \<in> seenHosts w'"
proof -
  let ?key = "fsKey (unicode_LowerCase cd) (fileSystemRoot s) (url r)"
  from assms obtain sf w1 where
    i: "internalCacheFetch s cd Do r lm w = Returns ((Some rsp, False, sf, None), w1)"
    and c: "call_StoreFunc cd sf w1 = (None, w')"
    by (auto simp: CacheFetchAndStore_def CacheFetch_def
        split: outcome.splits prod.splits option.splits)
  from internalCacheFetch_cases [OF i] obtain cachedRsp etag v where
    "fetchRemote s cd Do r ?key cachedRsp etag v (seen cd s r w)
       = Returns ((Some rsp, False, sf, None), w1)"
    by auto
  from fetchRemote_miss_store [OF this] obtain rsp0 d where
    a: "rsp = stamp s (now (seen cd s r w)) (wrap64 (v + 1)) rsp0"
    and d: "httputil_DumpResponse cd rsp = Inr d" and sf: "sf = WriteStoreFunc ?key d"
    and sh: "seenHosts w1 = seenHosts (seen cd s r w)" and ur: "unreadable w1
        = unreadable (seen cd s r w)"
    by blast
  from call_StoreFunc_write [OF c [unfolded sf]] obtain z where
    z: "gzip_Write cd d = Inr z" and w': "w' = w1\<lparr>files := (files w1)(?key \<mapsto> z)\<rparr>"
    by blast
  have "rsp = stamp s (now w) (wrap64 (v + 1)) rsp0" using a by (simp add: seen_def)
  moreover have "files w' ?key = Some z" using w' by simp
  moreover have "unreadable w' = unreadable w" using w' ur by (simp add: seen_def)
  moreover have "filepath_Dir ?key \<in> seenHosts w'" using w' sh by (simp add: seen_def)
  ultimately show ?thesis using d z by blast
qed

subsection \<open>A committed response fetched again\<close>

lemma policy_of_headers:
  assumes "Header_Get (Header c) (fetchTimestampKey s)
      = Header_Get (Header rsp) (fetchTimestampKey s)"
      and "Header_Get (Header c) (fetchVersionKey s) = Header_Get (Header rsp) (fetchVersionKey s)"
  shows "getWriteTimestamp s c = getWriteTimestamp s rsp" and "getVersion s c = getVersion s rsp"
  using assms by (simp_all add: getWriteTimestamp_def getVersion_def)

lemma shouldUseCachedValue_hit:
  assumes "ContentLength c = - 1 \<or> 10 \<le> ContentLength c"
      and "getWriteTimestamp s c = Inr tm" and "getVersion s c = Inr v"
      and "\<not> retryStatus (StatusCode c) \<or> maxErrorVersion s < v"
      and "After tm lm"
  shows "shouldUseCachedValue s c lm = (v, True)"
  using assms by (auto simp: shouldUseCachedValue_def minimumContentLength_def)

text \<open>
  Claim C3, as amended. A fetch that missed returned a response and was committed. The
  codec keeps that response: it reads back with the same status, metadata headers and body
  and with a content length that is unknown or at least 10. The file can be read. The
  response, as the first fetch returned it, carries a version that is past the cap when
  its status is one of the six error statuses of the policy, and a write-timestamp that is
  after the zero time. Then a second \<open>CacheFetch\<close> with the zero cutoff, at any clock,
  returns the stored response, with the same body, as a hit with \<open>NoOpStoreFunc\<close>, and the
  state, with it the requests sent to the transport, is unchanged.
\<close>

theorem C3_second_fetch_is_hit:
  assumes first: "CacheFetchAndStore s cd Do r cutoff w0 = Returns ((Some rsp, False, None), w1)"
      and kept: "keeps cd s r rsp"
      and readable: "fsKey (unicode_LowerCase cd) (fileSystemRoot s) (url r) \<notin> unreadable w0"
      and version: "getVersion s rsp = Inr v"
      and cap: "\<not> retryStatus (StatusCode rsp) \<or> maxErrorVersion s < v"
      and written: "getWriteTimestamp s rsp = Inr tm"
      and clock: "After tm time_zero"
  shows "\<exists>stored.
           CacheFetch s cd Do r time_zero (w1\<lparr>now := t\<rparr>)
             = Returns ((Some stored, True, NoOpStoreFunc, None), w1\<lparr>now := t\<rparr>)
           \<and> Body stored = Body rsp \<and> StatusCode stored = StatusCode rsp"
proof -
  let ?key = "fsKey (unicode_LowerCase cd) (fileSystemRoot s) (url r)"
  from CacheFetchAndStore_miss_file [OF first] obtain rsp0 v0 d z where
    d: "httputil_DumpResponse cd rsp = Inr d" and z: "gzip_Write cd d = Inr z"
    and f: "files w1 ?key = Some z" and ur: "unreadable w1 = unreadable w0"
    and sh: "filepath_Dir ?key \<in> seenHosts w1"
    by blast
  from kept obtain d' z' g stored where
    "httputil_DumpResponse cd rsp = Inr d'" and "gzip_Write cd d' = Inr z'"
    and g: "gzip_NewReader cd z' = Inr g" and c: "http_ReadResponse cd g r = Inr stored"
    and st: "StatusCode stored = StatusCode rsp"
    and ht: "Header_Get (Header stored) (fetchTimestampKey s)
               = Header_Get (Header rsp) (fetchTimestampKey s)"
    and hv: "Header_Get (Header stored) (fetchVersionKey s)
               = Header_Get (Header rsp) (fetchVersionKey s)"
    and bd: "Body stored = Body rsp"
    and cl: "ContentLength stored = - 1 \<or> 10 \<le> ContentLength stored"
    by (rule keepsE)
  with d z have g': "gzip_NewReader cd z = Inr g" by simp
  have nr: "?key \<notin> unreadable w1" using readable ur by simp
  have rd: "readAndParseGZIPFile cd w1 ?key r = Returns (Some stored, None)"
    by (rule readAndParseGZIPFile_file [OF nr f g' c])
  have ts: "getWriteTimestamp s stored = Inr tm"
    using policy_of_headers(1) [OF ht hv] written by simp
  have vs: "getVersion s stored = Inr v"
    using policy_of_headers(2) [OF ht hv] version by simp
  have cap': "\<not> retryStatus (StatusCode stored) \<or> maxErrorVersion s < v"
    using cap st by simp
  have "shouldUseCachedValue s stored time_zero = (v, True)"
    by (rule shouldUseCachedValue_hit [OF cl ts vs cap' clock])
  moreover have "dir_ready cd s r (w1\<lparr>now := t\<rparr>)"
    using sh by (simp add: dir_ready_def)
  moreover have "readAndParseGZIPFile cd (w1\<lparr>now := t\<rparr>) ?key r = Returns (Some stored, None)"
    using rd by simp
  moreover have "seen cd s r (w1\<lparr>now := t\<rparr>) = w1\<lparr>now := t\<rparr>"
    using sh by (simp add: seen_absorb)
  ultimately have "CacheFetch s cd Do r time_zero (w1\<lparr>now := t\<rparr>)
           = Returns ((Some stored, True, NoOpStoreFunc, None), w1\<lparr>now := t\<rparr>)"
    by (simp add: CacheFetch_def internalCacheFetch_entry)
  with bd st show ?thesis by blast
qed

text \<open>
  With a cap of 0 and the client of the test file answering 500, the first fetch writes
  version 1, which is past the cap, and the second fetch is a hit.
\<close>

theorem C3_second_fetch_is_hit_witness:
  "\<exists>rsp w1 stored.
     CacheFetchAndStore no_retry_store mem_codec dummy_Do example_request time_zero
       (empty_dir 500 ''hello, world'') = Returns ((Some rsp, False, None), w1)
     \<and> keeps mem_codec no_retry_store example_request rsp
     \<and> retryStatus (StatusCode rsp)
     \<and> getVersion no_retry_store rsp = Inr 1
     \<and> maxErrorVersion no_retry_store < 1
     \<and> getWriteTimestamp no_retry_store rsp = Inr (time_Unix 1000)
     \<and> After (time_Unix 1000) time_zero
     \<and> CacheFetch no_retry_store mem_codec dummy_Do example_request time_zero (w1\<lparr>now := 1001\<rparr>)
         = Returns ((Some stored, True, NoOpStoreFunc, None), w1\<lparr>now := 1001\<rparr>)
     \<and> Body stored = Body rsp"
proof -
  have "case CacheFetchAndStore no_retry_store mem_codec dummy_Do example_request time_zero
               (empty_dir 500 ''hello, world'') of
          Panics \<Rightarrow> False
        | Returns ((rsp, cached, err), w1) \<Rightarrow>
            rsp \<noteq> None \<and> \<not> cached \<and> err = None
            \<and> keeps mem_codec no_retry_store example_request (the rsp)
            \<and> retryStatus (StatusCode (the rsp))
            \<and> getVersion no_retry_store (the rsp) = Inr 1
            \<and> getWriteTimestamp no_retry_store (the rsp) = Inr (time_Unix 1000)"
    by code_simp
  then obtain rsp w1 where
    h1: "CacheFetchAndStore no_retry_store mem_codec dummy_Do example_request time_zero
           (empty_dir 500 ''hello, world'') = Returns ((Some rsp, False, None), w1)"
    and h2: "keeps mem_codec no_retry_store example_request rsp"
    and h3: "retryStatus (StatusCode rsp)"
    and h4: "getVersion no_retry_store rsp = Inr 1"
    and h5: "getWriteTimestamp no_retry_store rsp = Inr (time_Unix 1000)"
    by (auto split: outcome.splits prod.splits)
  have h6: "fsKey (unicode_LowerCase mem_codec) (fileSystemRoot no_retry_store)
              (url example_request) \<notin> unreadable (empty_dir 500 ''hello, world'')"
    by code_simp
  have h7: "maxErrorVersion no_retry_store < 1"
    by code_simp
  then have h8: "\<not> retryStatus (StatusCode rsp) \<or> maxErrorVersion no_retry_store < 1" ..
  have h9: "After (time_Unix 1000) time_zero"
    by code_simp
  from C3_second_fetch_is_hit [where Do = dummy_Do and t = 1001, OF h1 h2 h6 h4 h8 h5 h9]
    h1 h2 h3 h4 h5 h7 h9
  show ?thesis by blast
qed

text \<open>
  Claim C3 as stated fails. With the client of the test file answering 500 and a cap of 2,
  the second fetch with the zero cutoff is a miss and the transport has been called twice;
  so it is when the client answers 200 with an empty body, whose entry reads back with a
  content length of zero; when the clock of the first fetch is at the zero time, so that
  the write-timestamp is not after the cutoff; and when the file that was written cannot
  be read.
\<close>

theorem C3_counterexample:
  "map_option (\<lambda>(hits, w). (hits, requests (client w)))
     (fetches test_store mem_codec dummy_Do example_request
        [(1000, time_zero), (1001, time_zero)] (empty_dir 500 ''hello, world''))
     = Some ([False, False], 2)
   \<and> map_option (\<lambda>(hits, w). (hits, requests (client w)))
       (fetches test_store mem_codec dummy_Do example_request
          [(1000, time_zero), (1001, time_zero)] (empty_dir 200 []))
     = Some ([False, False], 2)
   \<and> map_option (\<lambda>(hits, w). (hits, requests (client w)))
       (fetches test_store mem_codec dummy_Do example_request
          [(- 62135596800, time_zero), (1001, time_zero)] (empty_dir 200 ''hello, world''))
     = Some ([False, False], 2)
   \<and> map_option (\<lambda>(hits, w). (hits, requests (client w)))
       (fetches test_store mem_codec dummy_Do example_request
          [(1000, time_zero), (1001, time_zero)] locked_dir)
     = Some ([False, False], 2)"
  by code_simp

subsection \<open>An endpoint that keeps failing\<close>

lemma retryStatus_not_304: "retryStatus c \<Longrightarrow> c \<noteq> 304"
  by (auto simp: retryStatus_def)

lemma always_retryD:
  assumes "always_retry s cd Do r I" and "I c"
  shows "\<exists>rsp c'. Do req c = ((Some rsp, None), c') \<and> I c' \<and> retryStatus (StatusCode rsp)
                   \<and> (\<forall>t v. keeps cd s r (stamp s t v rsp))"
  using assms unfolding always_retry_def by blast

lemma stamp_timestamp_any:
  "Header_Get (Header (stamp s t v rsp)) (fetchTimestampKey s)
     = Sprintf_d (if CanonicalMIMEHeaderKey (fetchTimestampKey s)
                       = CanonicalMIMEHeaderKey (fetchVersionKey s) then v else t)"
  by (simp add: stamp_def Header_Get_Set Header_Get_Set_other)
     (simp add: Header_Get_def Header_Set_def update_conv')

lemma retry_step:
  assumes ar: "always_retry s cd Do r I" and inv: "I (client w)" and u: "usable cd s r w"
      and look: "internalCacheFetch s cd Do r lm (w\<lparr>now := t\<rparr>)
                   = fetchRemote s cd Do r (fsKey (unicode_LowerCase cd) (fileSystemRoot s) (url r))
                       cachedRsp etag v (seen cd s r (w\<lparr>now := t\<rparr>))"
      and v: "in_int64 (v + 1)"
  shows "\<exists>rsp w' c ts.
           CacheFetchAndStore s cd Do r lm (w\<lparr>now := t\<rparr>) = Returns ((Some rsp, False, None), w')
           \<and> error_entry s cd r w' (v + 1) ts c \<and> (in_int64 t \<longrightarrow> in_int64 ts)
           \<and> (CanonicalMIMEHeaderKey (fetchTimestampKey s)
                 \<noteq> CanonicalMIMEHeaderKey (fetchVersionKey s) \<longrightarrow> ts = t)
           \<and> I (client w') \<and> usable cd s r w'
           \<and> filepath_Dir (fsKey (unicode_LowerCase cd) (fileSystemRoot s) (url r)) \<in> seenHosts w'
           \<and> length (sent w') = length (sent w) + 1"
proof -
  let ?w = "w\<lparr>now := t\<rparr>"
  let ?key = "fsKey (unicode_LowerCase cd) (fileSystemRoot s) (url r)"
  let ?ts = "if CanonicalMIMEHeaderKey (fetchTimestampKey s)
                  = CanonicalMIMEHeaderKey (fetchVersionKey s) then v + 1 else t"
  from always_retryD [OF ar inv, of "tagged r etag"] obtain rsp0 c' where
    do: "Do (tagged r etag) (client w) = ((Some rsp0, None), c')" and inv': "I c'"
    and rs: "retryStatus (StatusCode rsp0)" and k: "\<And>t v. keeps cd s r (stamp s t v rsp0)"
    by blast
  have do': "Do (tagged r etag) (client ?w) = ((Some rsp0, None), c')"
    using do by simp
  have u': "usable cd s r ?w" using u by simp
  have k': "keeps cd s r (stamp s (now ?w) (wrap64 (v + 1)) rsp0)"
    by (rule k)
  from miss_step [OF u' look do' retryStatus_not_304 [OF rs] k']
  obtain w' c where
    a: "CacheFetchAndStore s cd Do r lm ?w
          = Returns ((Some (stamp s (now ?w) (wrap64 (v + 1)) rsp0), False, None), w')"
    and b: "readAndParseGZIPFile cd w' ?key r = Returns (Some c, None)"
    and f: "StatusCode c = StatusCode rsp0"
      "Header_Get (Header c) (fetchTimestampKey s)
         = Header_Get (Header (stamp s (now ?w) (wrap64 (v + 1)) rsp0)) (fetchTimestampKey s)"
      "Header_Get (Header c) (fetchVersionKey s) = Sprintf_d (wrap64 (v + 1))"
      "ContentLength c = - 1 \<or> 10 \<le> ContentLength c"
    and g: "client w' = c'" "sent w' = sent ?w @ [tagged r etag]" "usable cd s r w'"
      "filepath_Dir ?key \<in> seenHosts w'"
    by blast
  define ts where "ts = ?ts"
  have "Header_Get (Header c) (fetchTimestampKey s) = Sprintf_d ts"
    using f(2) v by (simp add: stamp_timestamp_any wrap64_id ts_def)
  then have e: "error_entry s cd r w' (v + 1) ts c"
    using b f rs v by (simp add: error_entry_def wrap64_id)
  have i: "in_int64 t \<longrightarrow> in_int64 ts" using v by (simp add: ts_def)
  have k: "CanonicalMIMEHeaderKey (fetchTimestampKey s)
             \<noteq> CanonicalMIMEHeaderKey (fetchVersionKey s) \<longrightarrow> ts = t"
    by (simp add: ts_def)
  have n: "length (sent w') = length (sent w) + 1"
    using g(2) by simp
  have a': "CacheFetchAndStore s cd Do r lm ?w
              = Returns ((Some (stamp s t (wrap64 (v + 1)) rsp0), False, None), w')"
    using a by simp
  from a' e i k inv' g(1,3,4) n show ?thesis by blast
qed

lemma retry_lookup:
  assumes u: "usable cd s r w" and st: "retry_state s cd r w k"
      and k: "0 \<le> k" "k \<le> maxErrorVersion s" "in_int64 k"
  shows "\<exists>cachedRsp etag.
           internalCacheFetch s cd Do r lm (w\<lparr>now := t\<rparr>)
             = fetchRemote s cd Do r
                 (fsKey (unicode_LowerCase cd) (fileSystemRoot s) (url r)) cachedRsp etag k
                 (seen cd s r (w\<lparr>now := t\<rparr>))"
proof (cases "k = 0")
  case True
  with st obtain e where
    "readAndParseGZIPFile cd w (fsKey (unicode_LowerCase cd) (fileSystemRoot s) (url r)) r
        = Returns (None, Some e)"
    by (auto simp: retry_state_def)
  then have "internalCacheFetch s cd Do r lm (w\<lparr>now := t\<rparr>)
             = fetchRemote s cd Do r
                 (fsKey (unicode_LowerCase cd) (fileSystemRoot s) (url r)) None [] 0
                 (seen cd s r (w\<lparr>now := t\<rparr>))"
    using u by (intro internalCacheFetch_no_entry) (simp_all add: usable_def)
  with True show ?thesis by blast
next
  case False
  with st obtain ts c where ts: "in_int64 ts" and e: "error_entry s cd r w k ts c"
    by (auto simp: retry_state_def)
  from e have rd: "readAndParseGZIPFile cd (w\<lparr>now := t\<rparr>)
      (fsKey (unicode_LowerCase cd) (fileSystemRoot s) (url r)) r
                     = Returns (Some c, None)"
    and rs: "retryStatus (StatusCode c)"
    and hv: "Header_Get (Header c) (fetchVersionKey s) = Sprintf_d k"
    and ht: "Header_Get (Header c) (fetchTimestampKey s) = Sprintf_d ts"
    and cl: "ContentLength c = - 1 \<or> 10 \<le> ContentLength c"
    by (simp_all add: error_entry_def)
  have "shouldUseCachedValue s c lm = (k, False)"
    using rs k by (simp add: shouldUseCachedValue_stamped [OF cl ht ts hv])
  moreover have "dir_ready cd s r (w\<lparr>now := t\<rparr>)"
    using u by (simp add: usable_def)
  ultimately have "internalCacheFetch s cd Do r lm (w\<lparr>now := t\<rparr>)
             = fetchRemote s cd Do r
                 (fsKey (unicode_LowerCase cd) (fileSystemRoot s) (url r)) (Some c)
                 (Header_Get (Header c) etagKey) k (seen cd s r (w\<lparr>now := t\<rparr>))"
    using rd by (simp add: internalCacheFetch_entry)
  then show ?thesis by blast
qed

lemma fetches_one:
  assumes "CacheFetchAndStore s cd Do r lm (w\<lparr>now := t\<rparr>) = Returns ((rsp, cached, None), w1)"
  shows "fetches s cd Do r ((t, lm) # steps) w =
           (case fetches s cd Do r steps w1 of
              None \<Rightarrow> None
            | Some (hits, w'') \<Rightarrow> Some (cached # hits, w''))"
  using assms by simp

lemma retry_run:
  assumes ar: "always_retry s cd Do r I"
      and big: "maxErrorVersion s + 1 < 2 ^ 63"
  shows "I (client w) \<Longrightarrow> usable cd s r w \<Longrightarrow> retry_state s cd r w k \<Longrightarrow> 0 \<le> k \<Longrightarrow>
         k + int (length steps) \<le> maxErrorVersion s + 1 \<Longrightarrow>
         list_all (\<lambda>(t, lm). in_int64 t) steps \<Longrightarrow> steps \<noteq> [] \<Longrightarrow>
         \<exists>w' c ts. fetches s cd Do r steps w = Some (replicate (length steps) False, w')
           \<and> length (sent w') = length (sent w) + length steps
           \<and> I (client w') \<and> usable cd s r w'
           \<and> filepath_Dir (fsKey (unicode_LowerCase cd) (fileSystemRoot s) (url r)) \<in> seenHosts w'
           \<and> error_entry s cd r w' (k + int (length steps)) ts c \<and> in_int64 ts
           \<and> (CanonicalMIMEHeaderKey (fetchTimestampKey s)
                 \<noteq> CanonicalMIMEHeaderKey (fetchVersionKey s) \<longrightarrow> ts = fst (last steps))"
proof (induction steps arbitrary: w k)
  case Nil
  then show ?case by simp
next
  case (Cons step steps)
  let ?key = "fsKey (unicode_LowerCase cd) (fileSystemRoot s) (url r)"
  obtain t lm where step: "step = (t, lm)" by (cases step)
  from Cons.prems(5) have kN: "k \<le> maxErrorVersion s" by simp
  with Cons.prems(4) big have ki: "in_int64 k" "in_int64 (k + 1)"
    by (simp_all add: in_int64_def)
  from Cons.prems(6) step have ti: "in_int64 t" and rest: "list_all (\<lambda>(t, lm). in_int64 t) steps"
    by simp_all
  from retry_lookup [OF Cons.prems(2,3,4) kN ki(1), of Do lm t]
  obtain cachedRsp etag where
    look: "internalCacheFetch s cd Do r lm (w\<lparr>now := t\<rparr>)
             = fetchRemote s cd Do r ?key cachedRsp etag k (seen cd s r (w\<lparr>now := t\<rparr>))"
    by blast
  from retry_step [OF ar Cons.prems(1,2) look ki(2)] ti
  obtain rsp w1 c1 ts1 where
    a: "CacheFetchAndStore s cd Do r lm (w\<lparr>now := t\<rparr>) = Returns ((Some rsp, False, None), w1)"
    and e: "error_entry s cd r w1 (k + 1) ts1 c1" and tsi: "in_int64 ts1"
    and tk: "CanonicalMIMEHeaderKey (fetchTimestampKey s)
               \<noteq> CanonicalMIMEHeaderKey (fetchVersionKey s) \<longrightarrow> ts1 = t"
    and i: "I (client w1)" and u: "usable cd s r w1"
    and h: "filepath_Dir ?key \<in> seenHosts w1"
    and n: "length (sent w1) = length (sent w) + 1"
    by blast
  show ?case
  proof (cases "steps = []")
    case True
    have "fetches s cd Do r (step # steps) w = Some (replicate (length (step # steps)) False, w1)"
      using a step True by (simp add: fetches_one)
    moreover have "error_entry s cd r w1 (k + int (length (step # steps))) ts1 c1"
      using e True by simp
    moreover have "length (sent w1) = length (sent w) + length (step # steps)"
      using n True by simp
    moreover have "CanonicalMIMEHeaderKey (fetchTimestampKey s)
                     \<noteq> CanonicalMIMEHeaderKey (fetchVersionKey s)
                   \<longrightarrow> ts1 = fst (last (step # steps))"
      using tk step True by simp
    ultimately show ?thesis
      using i u h tsi by blast
  next
    case False
    have st: "retry_state s cd r w1 (k + 1)"
      using e tsi Cons.prems(4) by (auto simp: retry_state_def)
    have le: "k + 1 + int (length steps) \<le> maxErrorVersion s + 1"
      using Cons.prems(5) by simp
    from Cons.IH [OF i u st _ le rest False] Cons.prems(4)
    obtain w' c ts where
      f: "fetches s cd Do r steps w1 = Some (replicate (length steps) False, w')"
      and g: "length (sent w') = length (sent w1) + length steps"
        "I (client w')" "usable cd s r w'"
        "filepath_Dir ?key \<in> seenHosts w'"
        "error_entry s cd r w' (k + 1 + int (length steps)) ts c" "in_int64 ts"
        "CanonicalMIMEHeaderKey (fetchTimestampKey s)
           \<noteq> CanonicalMIMEHeaderKey (fetchVersionKey s) \<longrightarrow> ts = fst (last steps)"
      by auto
    have "fetches s cd Do r (step # steps) w = Some (replicate (length (step # steps)) False, w')"
      using a f step by (simp add: fetches_one)
    moreover have "error_entry s cd r w' (k + int (length (step # steps))) ts c"
      using g(5) by (simp add: add.assoc)
    moreover have "length (sent w') = length (sent w) + length (step # steps)"
      using g(1) n by simp
    moreover have "CanonicalMIMEHeaderKey (fetchTimestampKey s)
                     \<noteq> CanonicalMIMEHeaderKey (fetchVersionKey s)
                   \<longrightarrow> ts = fst (last (step # steps))"
      using g(7) False by simp
    ultimately show ?thesis
      using g(2,3,4,6) by blast
  qed
qed

lemma error_entry_stored_version:
  "error_entry s cd r w k ts c \<Longrightarrow> stored_version s cd r w = Some (Sprintf_d k)"
  by (simp add: error_entry_def stored_version_def)

lemma Sprintf_d_1: "Sprintf_d 1 = ''1''"
  by code_simp

lemma past_cap_policy:
  assumes "error_entry s cd r w k ts c" and "in_int64 ts" and "in_int64 k"
      and "maxErrorVersion s < k"
  shows "shouldUseCachedValue s c lm = (if After (time_Unix ts) lm then (k, True) else (0, False))"
  using assms
  by (simp add: error_entry_def shouldUseCachedValue_stamped [where ts = ts and v = k])

lemma past_cap_hit:
  assumes u: "usable cd s r w"
      and h: "filepath_Dir (fsKey (unicode_LowerCase cd) (fileSystemRoot s) (url r)) \<in> seenHosts w"
      and e: "error_entry s cd r w k ts c" and i: "in_int64 ts" "in_int64 k"
      and cap: "maxErrorVersion s < k"
      and af: "After (time_Unix ts) lm"
  shows "CacheFetchAndStore s cd Do r lm (w\<lparr>now := t\<rparr>)
           = Returns ((Some c, True, None), w\<lparr>now := t\<rparr>)"
proof -
  have p: "shouldUseCachedValue s c lm = (k, True)"
    using past_cap_policy [OF e i cap, of lm] af by simp
  have d: "dir_ready cd s r (w\<lparr>now := t\<rparr>)"
    using u by (simp add: usable_def)
  have rd: "readAndParseGZIPFile cd (w\<lparr>now := t\<rparr>)
      (fsKey (unicode_LowerCase cd) (fileSystemRoot s) (url r)) r
              = Returns (Some c, None)"
    using e by (simp add: error_entry_def)
  have sn: "seen cd s r (w\<lparr>now := t\<rparr>) = w\<lparr>now := t\<rparr>"
    using h by (simp add: seen_absorb)
  have "internalCacheFetch s cd Do r lm (w\<lparr>now := t\<rparr>)
          = Returns ((Some c, True, NoOpStoreFunc, None), w\<lparr>now := t\<rparr>)"
    by (simp add: internalCacheFetch_entry [OF d rd] p sn)
  then show ?thesis by (rule CacheFetchAndStore_hit)
qed

lemma past_cap_miss:
  assumes ar: "always_retry s cd Do r I" and inv: "I (client w)"
      and u: "usable cd s r w"
      and e: "error_entry s cd r w k ts c" and i: "in_int64 ts" "in_int64 k"
      and cap: "maxErrorVersion s < k"
      and af: "\<not> After (time_Unix ts) lm"
  shows "\<exists>rsp w'. CacheFetchAndStore s cd Do r lm (w\<lparr>now := t\<rparr>)
                    = Returns ((Some rsp, False, None), w')
           \<and> length (sent w') = length (sent w) + 1
           \<and> stored_version s cd r w' = Some ''1''"
proof -
  let ?key = "fsKey (unicode_LowerCase cd) (fileSystemRoot s) (url r)"
  have p: "shouldUseCachedValue s c lm = (0, False)"
    using past_cap_policy [OF e i cap, of lm] af by simp
  have d: "dir_ready cd s r (w\<lparr>now := t\<rparr>)"
    using u by (simp add: usable_def)
  have rd: "readAndParseGZIPFile cd (w\<lparr>now := t\<rparr>) ?key r = Returns (Some c, None)"
    using e by (simp add: error_entry_def)
  have look: "internalCacheFetch s cd Do r lm (w\<lparr>now := t\<rparr>)
          = fetchRemote s cd Do r ?key (Some c)
              (Header_Get (Header c) etagKey) 0 (seen cd s r (w\<lparr>now := t\<rparr>))"
    by (simp add: internalCacheFetch_entry [OF d rd] p)
  have "in_int64 (0 + 1)" by (simp add: in_int64_def)
  from retry_step [OF ar inv u look this]
  obtain rsp w' c' ts' where
    "CacheFetchAndStore s cd Do r lm (w\<lparr>now := t\<rparr>) = Returns ((Some rsp, False, None), w')"
    and "error_entry s cd r w' (0 + 1) ts' c'"
    and "length (sent w') = length (sent w) + 1"
    by blast
  then show ?thesis
    using error_entry_stored_version [of s cd r w' 1 ts' c'] by (auto simp: Sprintf_d_1)
qed

lemma error_entry_now [simp]:
  "error_entry s cd r (w\<lparr>now := t\<rparr>) k ts c = error_entry s cd r w k ts c"
  by (simp add: error_entry_def)

lemma error_entry_stored_time:
  assumes "error_entry s cd r w k ts c" and "in_int64 ts"
  shows "stored_time s cd r w = Some (time_Unix ts)"
  using assms
  by (simp add: error_entry_def stored_time_def getWriteTimestamp_def ParseInt_Sprintf_d
      Sprintf_d_not_Nil)

lemma hit_run:
  assumes e: "error_entry s cd r w k ts c" and i: "in_int64 ts" "in_int64 k"
      and cap: "maxErrorVersion s < k"
  shows "usable cd s r w \<Longrightarrow>
         filepath_Dir (fsKey (unicode_LowerCase cd) (fileSystemRoot s) (url r)) \<in> seenHosts w \<Longrightarrow>
         error_entry s cd r w k ts c \<Longrightarrow>
         list_all (\<lambda>(t, lm). After (time_Unix ts) lm) steps \<Longrightarrow>
         \<exists>w'. fetches s cd Do r steps w = Some (replicate (length steps) True, w')
           \<and> (\<exists>t. w' = w\<lparr>now := t\<rparr>)"
proof (induction steps arbitrary: w)
  case Nil
  have "w = w\<lparr>now := now w\<rparr>" by simp
  then show ?case by (auto intro: exI [of _ "now w"])
next
  case (Cons step steps)
  obtain t lm where step: "step = (t, lm)" by (cases step)
  from Cons.prems(4) step have af: "After (time_Unix ts) lm"
    and rest: "list_all (\<lambda>(t, lm). After (time_Unix ts) lm) steps"
    by simp_all
  have a: "CacheFetchAndStore s cd Do r lm (w\<lparr>now := t\<rparr>)
             = Returns ((Some c, True, None), w\<lparr>now := t\<rparr>)"
    by (rule past_cap_hit [OF Cons.prems(1,2,3) i cap af])
  have u': "usable cd s r (w\<lparr>now := t\<rparr>)" using Cons.prems(1) by simp
  have h': "filepath_Dir (fsKey (unicode_LowerCase cd) (fileSystemRoot s) (url r))
              \<in> seenHosts (w\<lparr>now := t\<rparr>)"
    using Cons.prems(2) by simp
  have e': "error_entry s cd r (w\<lparr>now := t\<rparr>) k ts c" using Cons.prems(3) by simp
  from Cons.IH [OF u' h' e' rest] obtain w' t' where
    f: "fetches s cd Do r steps (w\<lparr>now := t\<rparr>) = Some (replicate (length steps) True, w')"
    and w': "w' = w\<lparr>now := t\<rparr>\<lparr>now := t'\<rparr>"
    by blast
  have "fetches s cd Do r (step # steps) w = Some (replicate (length (step # steps)) True, w')"
    using a f step by (simp add: fetches_one)
  moreover have "w' = w\<lparr>now := t'\<rparr>" using w' by simp
  ultimately show ?case by blast
qed

lemma retry_state_empty:
  assumes "usable cd s r w" and "files w (fsKey (unicode_LowerCase cd) (fileSystemRoot s) (url r))
      = None"
  shows "retry_state s cd r w 0"
  using assms
  by (simp add: retry_state_def usable_def readAndParseGZIPFile_def readGZIPFile_def
      os_ReadFile_def)



text \<open>
  Claim C1, as amended. The cap is \<open>N\<close>, not negative; the transport always answers with
  one of the six error statuses and the codec keeps its responses; the key can be used and
  there is no file at it. Of \<open>N + 1\<close> fetches, each committed, at any clocks and with any
  cutoffs, every one is a miss that calls the transport: after the first \<open>k\<close> of them
  the transport has been called \<open>k\<close> times and the stored version is \<open>k\<close>. After all
  \<open>N + 1\<close> the entry carries a write-timestamp, which is the clock of the last of them
  when the two metadata header names differ. From then on, the fetches of any run whose
  cutoffs are all before that write-timestamp are all hits, and leave the files and the
  requests sent to the transport as they are; after such a run, a fetch with any other
  cutoff is a miss that calls the transport once and writes version 1.
\<close>

theorem C1_bounded_error_retry:
  assumes N: "maxErrorVersion s = N" "0 \<le> N" "N + 1 < 2 ^ 63"
      and ar: "always_retry s cd Do r I" and inv: "I (client w0)"
      and u: "usable cd s r w0"
      and empty: "files w0 (fsKey (unicode_LowerCase cd) (fileSystemRoot s) (url r)) = None"
      and len: "length steps = nat N + 1"
      and clock: "list_all (\<lambda>(t, lm). in_int64 t) steps"
  shows "(\<forall>k. 0 < k \<and> k \<le> nat N + 1 \<longrightarrow>
            (\<exists>w. fetches s cd Do r (take k steps) w0 = Some (replicate k False, w)
                 \<and> length (sent w) = length (sent w0) + k
                 \<and> stored_version s cd r w = Some (Sprintf_d (int k))))
         \<and> (\<exists>w tm. fetches s cd Do r steps w0 = Some (replicate (nat N + 1) False, w)
                 \<and> stored_time s cd r w = Some tm
                 \<and> (CanonicalMIMEHeaderKey (fetchTimestampKey s)
                       \<noteq> CanonicalMIMEHeaderKey (fetchVersionKey s)
                     \<longrightarrow> tm = time_Unix (fst (last steps)))
                 \<and> (\<forall>run. list_all (\<lambda>(t, lm). After tm lm) run \<longrightarrow>
                       (\<exists>w'. fetches s cd Do r run w = Some (replicate (length run) True, w')
                           \<and> sent w' = sent w \<and> files w' = files w
                           \<and> (\<forall>t lm. \<not> After tm lm \<longrightarrow>
                                 (\<exists>rsp w''. CacheFetchAndStore s cd Do r lm (w'\<lparr>now := t\<rparr>)
                                               = Returns ((Some rsp, False, None), w'')
                                     \<and> length (sent w'') = length (sent w) + 1
                                     \<and> stored_version s cd r w'' = Some ''1'')))))"
proof -
  let ?key = "fsKey (unicode_LowerCase cd) (fileSystemRoot s) (url r)"
  let ?distinct = "CanonicalMIMEHeaderKey (fetchTimestampKey s)
                     \<noteq> CanonicalMIMEHeaderKey (fetchVersionKey s)"
  have big: "maxErrorVersion s + 1 < 2 ^ 63" using N by simp
  have st0: "retry_state s cd r w0 0" by (rule retry_state_empty [OF u empty])
  have run: "\<exists>w' c ts. fetches s cd Do r xs w0 = Some (replicate (length xs) False, w')
           \<and> length (sent w') = length (sent w0) + length xs
           \<and> I (client w') \<and> usable cd s r w'
           \<and> filepath_Dir ?key \<in> seenHosts w'
           \<and> error_entry s cd r w' (0 + int (length xs)) ts c \<and> in_int64 ts
           \<and> (?distinct \<longrightarrow> ts = fst (last xs))"
    if "int (length xs) \<le> N + 1" and "list_all (\<lambda>(t, lm). in_int64 t) xs" and "xs \<noteq> []"
    for xs
    using that N(1) by (intro retry_run [OF ar big inv u st0]) simp_all
  have a: "\<forall>k. 0 < k \<and> k \<le> nat N + 1 \<longrightarrow>
            (\<exists>w. fetches s cd Do r (take k steps) w0 = Some (replicate k False, w)
                 \<and> length (sent w) = length (sent w0) + k
                 \<and> stored_version s cd r w = Some (Sprintf_d (int k)))"
  proof (intro allI impI)
    fix k :: nat
    assume k: "0 < k \<and> k \<le> nat N + 1"
    then have l: "length (take k steps) = k" using len by simp
    have c: "list_all (\<lambda>(t, lm). in_int64 t) (take k steps)"
      using clock by (auto simp: list_all_iff dest: in_set_takeD)
    have "int k \<le> N + 1" using k N(2) by linarith
    then have le: "int (length (take k steps)) \<le> N + 1" by (simp only: l)
    have nn: "take k steps \<noteq> []" using k l by auto
    from run [OF le c nn] obtain w' c' ts' where
      "fetches s cd Do r (take k steps) w0 = Some (replicate k False, w')"
      "length (sent w') = length (sent w0) + k"
      "error_entry s cd r w' (0 + int k) ts' c'"
      unfolding l by blast
    then show "\<exists>w. fetches s cd Do r (take k steps) w0 = Some (replicate k False, w)
                 \<and> length (sent w) = length (sent w0) + k
                 \<and> stored_version s cd r w = Some (Sprintf_d (int k))"
      using error_entry_stored_version [of s cd r w' "int k" ts' c'] by auto
  qed
  have "int (length steps) \<le> N + 1" and ne: "steps \<noteq> []" using len N(2) by auto
  from run [OF this(1) clock ne] obtain w c ts where
    f: "fetches s cd Do r steps w0 = Some (replicate (length steps) False, w)"
    and i: "I (client w)" and uw: "usable cd s r w"
    and h: "filepath_Dir ?key \<in> seenHosts w"
    and e: "error_entry s cd r w (0 + int (length steps)) ts c"
    and ti: "in_int64 ts" and tk: "?distinct \<longrightarrow> ts = fst (last steps)"
    by blast
  have "0 + int (length steps) = N + 1" using len N(2) by simp
  with e have ee: "error_entry s cd r w (N + 1) ts c"
    by (simp only:)
  have ki: "in_int64 (N + 1)" using N by (simp add: in_int64_def)
  have cap: "maxErrorVersion s < N + 1" using N(1) by simp
  have b1: "fetches s cd Do r steps w0 = Some (replicate (nat N + 1) False, w)"
    using f len by simp
  have b2: "stored_time s cd r w = Some (time_Unix ts)"
    by (rule error_entry_stored_time [OF ee ti])
  have b3: "?distinct \<longrightarrow> time_Unix ts = time_Unix (fst (last steps))"
    using tk by simp
  have b4: "\<exists>w'. fetches s cd Do r run w = Some (replicate (length run) True, w')
              \<and> sent w' = sent w \<and> files w' = files w
              \<and> (\<forall>t lm. \<not> After (time_Unix ts) lm \<longrightarrow>
                    (\<exists>rsp w''. CacheFetchAndStore s cd Do r lm (w'\<lparr>now := t\<rparr>)
                                  = Returns ((Some rsp, False, None), w'')
                        \<and> length (sent w'') = length (sent w) + 1
                        \<and> stored_version s cd r w'' = Some ''1''))"
    if r: "list_all (\<lambda>(t, lm). After (time_Unix ts) lm) run" for run
  proof -
    from hit_run [OF ee ti ki cap uw h ee r, of Do] obtain w' t' where
      g: "fetches s cd Do r run w = Some (replicate (length run) True, w')"
      and w': "w' = w\<lparr>now := t'\<rparr>"
      by blast
    have i': "I (client w')" and u': "usable cd s r w'"
      and e': "error_entry s cd r w' (N + 1) ts c"
      using i uw ee by (simp_all add: w')
    have "\<exists>rsp w''. CacheFetchAndStore s cd Do r lm (w'\<lparr>now := t\<rparr>)
                       = Returns ((Some rsp, False, None), w'')
             \<and> length (sent w'') = length (sent w) + 1
             \<and> stored_version s cd r w'' = Some ''1''"
      if "\<not> After (time_Unix ts) lm" for t lm
      using past_cap_miss [OF ar i' u' e' ti ki cap that, of t] by (simp add: w')
    moreover have "sent w' = sent w" and "files w' = files w"
      by (simp_all add: w')
    ultimately show ?thesis using g by blast
  qed
  have "\<exists>w tm. fetches s cd Do r steps w0 = Some (replicate (nat N + 1) False, w)
                 \<and> stored_time s cd r w = Some tm
                 \<and> (?distinct \<longrightarrow> tm = time_Unix (fst (last steps)))
                 \<and> (\<forall>run. list_all (\<lambda>(t, lm). After tm lm) run \<longrightarrow>
                       (\<exists>w'. fetches s cd Do r run w = Some (replicate (length run) True, w')
                           \<and> sent w' = sent w \<and> files w' = files w
                           \<and> (\<forall>t lm. \<not> After tm lm \<longrightarrow>
                                 (\<exists>rsp w''. CacheFetchAndStore s cd Do r lm (w'\<lparr>now := t\<rparr>)
                                               = Returns ((Some rsp, False, None), w'')
                                     \<and> length (sent w'') = length (sent w) + 1
                                     \<and> stored_version s cd r w'' = Some ''1''))))"
    using b1 b2 b3 b4 by (intro exI [of _ w] exI [of _ "time_Unix ts"]) blast
  with a show ?thesis by (rule conjI)
qed

lemma digits_of_digits: "0 \<le> n \<Longrightarrow> list_all is_digit (digits_of n)"
proof (induction n rule: digits_of.induct)
  case (1 n)
  show ?case
  proof (cases "n < 10")
    case True
    with 1(2) show ?thesis
      by (simp add: digits_of.simps [of n] digit_of_digit)
  next
    case False
    with 1 have "list_all is_digit (digits_of (n div 10))" by simp
    moreover have "is_digit (digit_of (n mod 10))"
      using digit_of_digit [of "n mod 10"] by simp
    ultimately show ?thesis using False
      by (simp add: digits_of.simps [of n])
  qed
qed

lemma Sprintf_d_plain: "list_all (\<lambda>c. is_digit c \<or> c = CHR ''-'') (Sprintf_d n)"
  using digits_of_digits [of n] digits_of_digits [of "- n"]
  by (cases "n < 0") (auto simp: Sprintf_d_def list_all_iff)

lemma plain_not_space: "is_digit c \<or> c = CHR ''-'' \<Longrightarrow> \<not> isASCIISpace c \<and> c \<noteq> CHR 0x0A \<and> c \<noteq> CHR 0x0D"
  by (auto simp: is_digit_def isASCIISpace_def)

lemma TrimString_plain:
  assumes "list_all (\<lambda>c. \<not> isASCIISpace c) s"
  shows "textproto_TrimString s = s"
proof -
  have a: "dropWhile isASCIISpace s = s"
    using assms by (cases s) simp_all
  have "list_all (\<lambda>c. \<not> isASCIISpace c) (rev s)"
    using assms by (simp add: list_all_iff)
  then have "dropWhile isASCIISpace (rev s) = rev s"
    by (cases "rev s") simp_all
  with a show ?thesis by (simp add: textproto_TrimString_def)
qed

lemma sanitize_Sprintf_d:
  "textproto_TrimString (headerNewlineToSpace (Sprintf_d n)) = Sprintf_d n"
proof -
  have p: "\<forall>c \<in> set (Sprintf_d n). \<not> isASCIISpace c \<and> c \<noteq> CHR 0x0A \<and> c \<noteq> CHR 0x0D"
    using Sprintf_d_plain [of n] plain_not_space by (auto simp: list_all_iff)
  then have "headerNewlineToSpace (Sprintf_d n) = Sprintf_d n"
    by (simp add: headerNewlineToSpace_def map_idI)
  moreover have "textproto_TrimString (Sprintf_d n) = Sprintf_d n"
    using p by (intro TrimString_plain) (simp add: list_all_iff)
  ultimately show ?thesis by simp
qed

lemma test_store_names:
  "fetchTimestampKey test_store = ''X-Elucidate-Time''"
  "fetchVersionKey test_store = ''X-Elucidate-Version''"
  "CanonicalMIMEHeaderKey ''X-Elucidate-Time'' = ''X-Elucidate-Time''"
  "CanonicalMIMEHeaderKey ''X-Elucidate-Version'' = ''X-Elucidate-Version''"
  "ValidHeaderFieldName ''X-Elucidate-Time''"
  "ValidHeaderFieldName ''X-Elucidate-Version''"
  "bytes_less ''X-Elucidate-Time'' ''X-Elucidate-Version''"
  "\<not> bytes_less ''X-Elucidate-Version'' ''X-Elucidate-Time''"
  "''X-Elucidate-Time'' \<notin> set respExcludeHeader"
  "''X-Elucidate-Version'' \<notin> set respExcludeHeader"
  by code_simp+

lemma dummy_round_trip:
  "case Response_Write (stamp test_store t v
          \<lparr>StatusCode = 500, Header = [], ContentLength = 0, Body = ''hello, world''\<rparr>) of
     Inl err \<Rightarrow> False
   | Inr z \<Rightarrow> ReadResponse z req
       = Inr \<lparr>StatusCode = 500,
              Header = [(''X-Elucidate-Time'', [Sprintf_d t]),
                        (''X-Elucidate-Version'', [Sprintf_d v])],
              ContentLength = - 1, Body = ''hello, world''\<rparr>"
  by (simp add: Response_Write_def stamp_def Header_Set_def test_store_names WriteSubset_def
      sortedKeyValues_def sanitize_Sprintf_d ReadResponse_def ReadMIMEHeader_def add_line_def
      fixPragmaCacheControl_def fixLength_def bodyAllowedForStatus_def byte_def)

lemma always_retry_dummy:
  "always_retry test_store mem_codec dummy_Do example_request failing_dummy"
proof -
  have "keeps mem_codec test_store example_request
          (stamp test_store t v
             \<lparr>StatusCode = 500, Header = [], ContentLength = 0, Body = ''hello, world''\<rparr>)"
    for t v
    using dummy_round_trip [where t = t and v = v and req = example_request]
    by (auto simp: keeps_def mem_codec_def stamp_def Header_Get_def Header_Set_def test_store_names
        split: sum.splits)
  then show ?thesis
    by (auto simp: always_retry_def failing_dummy_def dummy_Do_def retryStatus_def)
qed

text \<open>
  With the cap of 2 of the test file and its client answering 500, three fetches miss,
  and the two that follow, with cutoffs before the write-timestamp, are hits.
\<close>

theorem C1_bounded_error_retry_witness:
  "always_retry test_store mem_codec dummy_Do example_request failing_dummy
   \<and> usable mem_codec test_store example_request (empty_dir 500 ''hello, world'')
   \<and> files (empty_dir 500 ''hello, world'')
        (fsKey (unicode_LowerCase mem_codec) (fileSystemRoot test_store) (url example_request))
      = None
   \<and> (\<exists>w w'. fetches test_store mem_codec dummy_Do example_request three_fetches
                 (empty_dir 500 ''hello, world'') = Some ([False, False, False], w)
            \<and> stored_time test_store mem_codec example_request w = Some (time_Unix 1002)
            \<and> fetches test_store mem_codec dummy_Do example_request two_more w
                = Some ([True, True], w')
            \<and> sent w' = sent w)"
proof -
  have n: "maxErrorVersion test_store = 2" "(0::int) \<le> 2" "(2::int) + 1 < 2 ^ 63"
    by code_simp+
  have keys: "CanonicalMIMEHeaderKey (fetchTimestampKey test_store)
                \<noteq> CanonicalMIMEHeaderKey (fetchVersionKey test_store)"
    by code_simp
  have inv: "failing_dummy (client (empty_dir 500 ''hello, world''))"
    by code_simp
  have u: "usable mem_codec test_store example_request (empty_dir 500 ''hello, world'')"
    by code_simp
  have e: "files (empty_dir 500 ''hello, world'')
             (fsKey (unicode_LowerCase mem_codec) (fileSystemRoot test_store)
                (url example_request)) = None"
    by code_simp
  have len: "length three_fetches = nat 2 + 1"
    by (simp add: three_fetches_def)
  have clock: "list_all (\<lambda>(t, lm). in_int64 t) three_fetches"
    by code_simp
  have last: "time_Unix (fst (last three_fetches)) = time_Unix 1002"
    by code_simp
  have af: "list_all (\<lambda>(t, lm). After (time_Unix 1002) lm) two_more"
    by code_simp
  from C1_bounded_error_retry
         [where Do = dummy_Do and I = failing_dummy,
          OF n always_retry_dummy inv u e len clock]
  obtain w tm where
    a: "fetches test_store mem_codec dummy_Do example_request three_fetches
          (empty_dir 500 ''hello, world'') = Some (replicate (nat 2 + 1) False, w)"
    and b: "stored_time test_store mem_codec example_request w = Some tm"
    and c: "CanonicalMIMEHeaderKey (fetchTimestampKey test_store)
              \<noteq> CanonicalMIMEHeaderKey (fetchVersionKey test_store)
            \<longrightarrow> tm = time_Unix (fst (last three_fetches))"
    and d: "\<forall>run. list_all (\<lambda>(t, lm). After tm lm) run \<longrightarrow>
              (\<exists>w'. fetches test_store mem_codec dummy_Do example_request run w
                       = Some (replicate (length run) True, w')
                   \<and> sent w' = sent w \<and> files w' = files w
                   \<and> (\<forall>t lm. \<not> After tm lm \<longrightarrow>
                         (\<exists>rsp w''. CacheFetchAndStore test_store mem_codec dummy_Do
                                       example_request lm (w'\<lparr>now := t\<rparr>)
                                       = Returns ((Some rsp, False, None), w'')
                             \<and> length (sent w'') = length (sent w) + 1
                             \<and> stored_version test_store mem_codec example_request w''
                                 = Some ''1'')))"
    by blast
  from c keys last have tm: "tm = time_Unix 1002" by simp
  from d af obtain w' where
    "fetches test_store mem_codec dummy_Do example_request two_more w
       = Some (replicate (length two_more) True, w')"
    and "sent w' = sent w"
    unfolding tm by blast
  then have "fetches test_store mem_codec dummy_Do example_request two_more w
               = Some ([True, True], w')
             \<and> sent w' = sent w"
    by (simp add: two_more_def)
  moreover have "fetches test_store mem_codec dummy_Do example_request three_fetches
                   (empty_dir 500 ''hello, world'') = Some ([False, False, False], w)"
    using a by (simp add: numeral_3_eq_3)
  ultimately show ?thesis
    using always_retry_dummy u e b tm by blast
qed

text \<open>
  Claim C1 as stated fails. With a cap of 2 and the client of the test file answering
  500, the third fetch is still a miss that calls the transport; and after it a fetch
  whose cutoff is the present time is a miss that calls the transport a fourth time.
\<close>

theorem C1_counterexample:
  "map_option (\<lambda>(hits, w). (hits, requests (client w)))
     (fetches test_store mem_codec dummy_Do example_request three_fetches
        (empty_dir 500 ''hello, world''))
     = Some ([False, False, False], 3)
   \<and> map_option (\<lambda>(hits, w). (hits, requests (client w)))
       (fetches test_store mem_codec dummy_Do example_request
          (three_fetches @ [(1003, time_Now 1003)]) (empty_dir 500 ''hello, world''))
     = Some ([False, False, False, False], 4)"
  by code_simp

end
